theory Spec2Isabelle
  imports Complex_Main "HOL-Library.AList"
begin

section \<open>Numbers\<close>

text \<open>
  A finite JavaScript number is modelled by the exact rational it denotes (\<open>number\<close>):
  rounding to the nearest double, and to the nearest float32 on a store into a
  \<open>Float32Array\<close>, is not part of the embedding, and the two zeros are one. The numbers
  other than NaN are \<open>xnumber\<close>, the rationals with \<open>Infinity\<close> and \<open>-Infinity\<close>,
  ordered as the numbers are, so that \<open>Math.min\<close> and \<open>Math.max\<close> on them are \<open>min\<close>
  and \<open>max\<close> of that order. All numbers, NaN included, are \<open>jsnumber\<close>.
\<close>

type_synonym number = rat

datatype xnumber = NegInfinity | Finite number | Infinity

fun xle :: "xnumber \<Rightarrow> xnumber \<Rightarrow> bool" where
  "xle NegInfinity _ = True"
| "xle _ Infinity = True"
| "xle (Finite a) (Finite b) = (a \<le> b)"
| "xle _ _ = False"

instantiation xnumber :: linorder
begin

definition less_eq_xnumber :: "xnumber \<Rightarrow> xnumber \<Rightarrow> bool" where
  "less_eq_xnumber a b = xle a b"

definition less_xnumber :: "xnumber \<Rightarrow> xnumber \<Rightarrow> bool" where
  "less_xnumber a b = (xle a b \<and> \<not> xle b a)"

instance
proof
  fix x y z :: xnumber
  show "(x < y) = (x \<le> y \<and> \<not> y \<le> x)"
    by (simp add: less_eq_xnumber_def less_xnumber_def)
  show "x \<le> x"
    by (cases x) (simp_all add: less_eq_xnumber_def)
  show "x \<le> y \<Longrightarrow> y \<le> z \<Longrightarrow> x \<le> z"
    by (cases x; cases y; cases z) (simp_all add: less_eq_xnumber_def)
  show "x \<le> y \<Longrightarrow> y \<le> x \<Longrightarrow> x = y"
    by (cases x; cases y) (simp_all add: less_eq_xnumber_def)
  show "x \<le> y \<or> y \<le> x"
    by (cases x; cases y) (auto simp add: less_eq_xnumber_def)
qed

end

datatype jsnumber = NaN | Num xnumber

abbreviation fin :: "number \<Rightarrow> jsnumber" where
  "fin r \<equiv> Num (Finite r)"

text \<open>Comparisons: a comparison with NaN is false.\<close>

instantiation jsnumber :: ord
begin

definition less_eq_jsnumber :: "jsnumber \<Rightarrow> jsnumber \<Rightarrow> bool" where
  "less_eq_jsnumber a b = (case (a, b) of (Num x, Num y) \<Rightarrow> x \<le> y | _ \<Rightarrow> False)"

definition less_jsnumber :: "jsnumber \<Rightarrow> jsnumber \<Rightarrow> bool" where
  "less_jsnumber a b = (case (a, b) of (Num x, Num y) \<Rightarrow> x < y | _ \<Rightarrow> False)"

instance ..

end

text \<open>
  Arithmetic. A result whose exact value rounds to a double beyond the largest finite
  one, that is a value of magnitude at least \<open>2 ^ 1024 - 2 ^ 970\<close>, is infinite. The
  special cases are those of IEEE 754: \<open>Infinity - Infinity\<close>, \<open>0 * Infinity\<close>,
  \<open>0 / 0\<close> and \<open>Infinity / Infinity\<close> are NaN, and an operation on NaN gives NaN.
\<close>

definition overflowBound :: number where
  "overflowBound = 2 ^ 1024 - 2 ^ 970"

definition fromExact :: "number \<Rightarrow> jsnumber" where
  "fromExact r =
     (if overflowBound \<le> r then Num Infinity
      else if r \<le> - overflowBound then Num NegInfinity
      else fin r)"

text \<open>The infinity of a sign; no sign, as of \<open>0 * Infinity\<close>, gives NaN.\<close>

definition infOf :: "number \<Rightarrow> jsnumber" where
  "infOf s = (if 0 < s then Num Infinity else if s < 0 then Num NegInfinity else NaN)"

fun sgnx :: "xnumber \<Rightarrow> number" where
  "sgnx NegInfinity = - 1"
| "sgnx (Finite a) = sgn a"
| "sgnx Infinity = 1"

fun jneg :: "jsnumber \<Rightarrow> jsnumber" where
  "jneg NaN = NaN"
| "jneg (Num NegInfinity) = Num Infinity"
| "jneg (Num (Finite a)) = fin (- a)"
| "jneg (Num Infinity) = Num NegInfinity"

definition xadd :: "xnumber \<Rightarrow> xnumber \<Rightarrow> jsnumber" where
  "xadd a b =
     (case (a, b) of
        (Finite x, Finite y) \<Rightarrow> fromExact (x + y)
      | (Finite x, _) \<Rightarrow> Num b
      | (_, Finite y) \<Rightarrow> Num a
      | _ \<Rightarrow> if a = b then Num a else NaN)"

definition xmul :: "xnumber \<Rightarrow> xnumber \<Rightarrow> jsnumber" where
  "xmul a b =
     (case (a, b) of
        (Finite x, Finite y) \<Rightarrow> fromExact (x * y)
      | _ \<Rightarrow> infOf (sgnx a * sgnx b))"

definition xdiv :: "xnumber \<Rightarrow> xnumber \<Rightarrow> jsnumber" where
  "xdiv a b =
     (case (a, b) of
        (Finite x, Finite y) \<Rightarrow> if y = 0 then infOf (sgn x) else fromExact (x / y)
      | (Finite x, _) \<Rightarrow> fin 0
      | (_, Finite y) \<Rightarrow> infOf (sgnx a * (if y < 0 then - 1 else 1))
      | _ \<Rightarrow> NaN)"

fun jadd :: "jsnumber \<Rightarrow> jsnumber \<Rightarrow> jsnumber" where
  "jadd (Num a) (Num b) = xadd a b"
| "jadd _ _ = NaN"

definition jsub :: "jsnumber \<Rightarrow> jsnumber \<Rightarrow> jsnumber" where
  "jsub a b = jadd a (jneg b)"

fun jmul :: "jsnumber \<Rightarrow> jsnumber \<Rightarrow> jsnumber" where
  "jmul (Num a) (Num b) = xmul a b"
| "jmul _ _ = NaN"

fun jdiv :: "jsnumber \<Rightarrow> jsnumber \<Rightarrow> jsnumber" where
  "jdiv (Num a) (Num b) = xdiv a b"
| "jdiv _ _ = NaN"

text \<open>
  \<open>Math.min(...values)\<close> and \<open>Math.max(...values)\<close>: NaN if an argument is NaN,
  \<open>Infinity\<close> and \<open>-Infinity\<close> without arguments.
\<close>

fun mathMin2 :: "jsnumber \<Rightarrow> jsnumber \<Rightarrow> jsnumber" where
  "mathMin2 (Num a) (Num b) = Num (min a b)"
| "mathMin2 _ _ = NaN"

fun mathMax2 :: "jsnumber \<Rightarrow> jsnumber \<Rightarrow> jsnumber" where
  "mathMax2 (Num a) (Num b) = Num (max a b)"
| "mathMax2 _ _ = NaN"

definition mathMin :: "jsnumber list \<Rightarrow> jsnumber" where
  "mathMin vals = foldl mathMin2 (Num Infinity) vals"

definition mathMax :: "jsnumber list \<Rightarrow> jsnumber" where
  "mathMax vals = foldl mathMax2 (Num NegInfinity) vals"

section \<open>Data model (types.ts)\<close>

text \<open>
  A \<open>Date\<close> is represented by the local-time fields it was constructed from
  (\<open>new Date(year, month, day, hour, minute)\<close>, month counted from 0). The fields may lie
  outside their calendar range (day 31 of a 30-day month, month 12); the accessors
  \<open>getTime\<close>, \<open>getFullYear\<close>, \<open>getMonth\<close> and \<open>getDate\<close> further down
  normalise them as the constructor does. The local time zone is taken to have a fixed
  offset from UTC, so that local time and \<open>getTime\<close> differ by a constant.
\<close>

record Date =
  dYear :: int
  dMonth :: int
  dDay :: int
  dHours :: int
  dMinutes :: int
  dSeconds :: int
  dMilliseconds :: int

record GlucoseReading =
  timestamp :: Date
  "value" :: jsnumber
  recordType :: nat

text \<open>
  The statistics \<open>{min, max, avg, timeInRange}\<close>. The type of a day's statistics holds
  any number in \<open>min\<close>, \<open>max\<close> and \<open>avg\<close>; the descriptors of effects-config.ts
  further down hold numbers other than NaN in \<open>min\<close> and \<open>max\<close> and finite ones in
  \<open>avg\<close>. \<open>timeInRange\<close> is a quotient of two counts times 100, a finite number.
\<close>

record ('m, 'a) GlucoseStats =
  stat_min :: 'm
  stat_max :: 'm
  avg :: 'a
  timeInRange :: number

type_synonym DayStats = "(jsnumber, jsnumber) GlucoseStats"

record DailyGlucoseData =
  date :: string
  readings :: "GlucoseReading list"
  wavetable :: "jsnumber list option"
  stats :: DayStats

datatype GlucoseUnit = MgDl | MmolL

text \<open>
  A JavaScript \<open>Map\<close> and a plain object iterate in insertion order, and a store
  under an existing key keeps the key's position: both are association lists. (An object
  lists keys that are canonical array indices before the others; the column names of an
  export are taken not to be such numbers.)
\<close>

record ParsedLibreViewData =
  days :: "(string \<times> DailyGlucoseData) list"
  unit :: GlucoseUnit
  deviceName :: string
  serialNumber :: string

type_synonym CSVRow = "(string \<times> string) list"

section \<open>Wavetable generation (synthesis/wavetable.ts)\<close>

definition WAVETABLE_SIZE :: nat where
  "WAVETABLE_SIZE = 2048"

text \<open>
  \<open>normalizeGlucoseValues\<close>. The test \<open>range === 0\<close> is false of NaN.
\<close>

definition normalizeGlucoseValues :: "jsnumber list \<Rightarrow> jsnumber list" where
  "normalizeGlucoseValues vals =
     (if length vals = 0 then []
      else
        let mn = mathMin vals;
            mx = mathMax vals;
            range = jsub mx mn
        in if range = fin 0 then replicate (length vals) (fin 0)
           else map (\<lambda>v. jsub (jmul (jdiv (jsub v mn) range) (fin 2)) (fin 1)) vals)"

text \<open>
  \<open>resampleToWavetableSize\<close> on the samples of a \<open>Float32Array\<close>, which may be NaN
  or infinite: \<open>interpolateSample\<close> is the body of its loop at the virtual source index
  \<open>srcIndex\<close>. The indices are quotients and products of array lengths, computed
  exactly.
\<close>

definition interpolateSample :: "jsnumber list \<Rightarrow> number \<Rightarrow> jsnumber" where
  "interpolateSample vals srcIndex =
     (let srcIndexFloor = nat \<lfloor>srcIndex\<rfloor>;
          srcIndexCeil = min (srcIndexFloor + 1) (length vals - 1);
          fraction = srcIndex - of_nat srcIndexFloor
      in jadd (jmul (vals ! srcIndexFloor) (fin (1 - fraction)))
              (jmul (vals ! srcIndexCeil) (fin fraction)))"

definition resampleSamples :: "jsnumber list \<Rightarrow> nat \<Rightarrow> jsnumber list" where
  "resampleSamples vals targetSize =
     (if length vals = 0 then replicate targetSize (fin 0)
      else if length vals = targetSize then vals
      else
        let ratio = of_nat (length vals) / of_nat targetSize
        in map (\<lambda>i. interpolateSample vals (of_nat i * ratio)) [0..<targetSize])"

text \<open>
  The same function on finite samples, in exact arithmetic: where no sample is NaN or
  infinite, \<open>resampleSamples\<close> computes what \<open>resampleToWavetableSize\<close> below computes
  (lemma \<open>resampleSamples_finite\<close>).
\<close>

definition interpolateAt :: "number list \<Rightarrow> number \<Rightarrow> number" where
  "interpolateAt vals srcIndex =
     (let srcIndexFloor = nat \<lfloor>srcIndex\<rfloor>;
          srcIndexCeil = min (srcIndexFloor + 1) (length vals - 1);
          fraction = srcIndex - of_nat srcIndexFloor
      in vals ! srcIndexFloor * (1 - fraction) + vals ! srcIndexCeil * fraction)"

definition resampleToWavetableSize :: "number list \<Rightarrow> nat \<Rightarrow> number list" where
  "resampleToWavetableSize vals targetSize =
     (if length vals = 0 then replicate targetSize 0
      else if length vals = targetSize then vals
      else
        let ratio = of_nat (length vals) / of_nat targetSize
        in map (\<lambda>i. interpolateAt vals (of_nat i * ratio)) [0..<targetSize])"

text \<open>
  One pass of \<open>smoothWavetable\<close>: every \<open>temp[i]\<close> is computed from the array as it was
  before the pass, and \<open>temp\<close> is copied back afterwards.
\<close>

definition smoothPass :: "jsnumber list \<Rightarrow> jsnumber list" where
  "smoothPass w =
     map (\<lambda>i.
            let n = int (length w);
                prev = w ! nat ((int i - 1 + n) mod n);
                curr = w ! i;
                next = w ! nat ((int i + 1) mod n)
            in jadd (jadd (jmul prev (fin (1/4))) (jmul curr (fin (1/2))))
                    (jmul next (fin (1/4))))
         [0..<length w]"

fun smoothWavetable :: "jsnumber list \<Rightarrow> nat \<Rightarrow> jsnumber list" where
  "smoothWavetable w 0 = w"
| "smoothWavetable w (Suc passes) = smoothWavetable (smoothPass w) passes"

definition generateWavetable :: "DailyGlucoseData \<Rightarrow> jsnumber list" where
  "generateWavetable dayData =
     (let rs = readings dayData
      in if length rs = 0 then replicate WAVETABLE_SIZE (fin 0)
         else
           let vals = map value rs;
               normalized = normalizeGlucoseValues vals;
               wt = resampleSamples normalized WAVETABLE_SIZE
           in smoothWavetable wt 2)"

section \<open>Glucose statistics (synthesis/effects-config.ts)\<close>

record GlucoseStatsWithVolatility = "(xnumber, number) GlucoseStats" +
  volatility :: number

text \<open>The table \<open>GLUCOSE_THRESHOLDS\<close>.\<close>

definition thresholds_volatility_high :: number where
  "thresholds_volatility_high = 40"

definition thresholds_volatility_low :: number where
  "thresholds_volatility_low = 20"

definition thresholds_average_high :: number where
  "thresholds_average_high = 150"

definition thresholds_average_low :: number where
  "thresholds_average_low = 100"

definition thresholds_average_target :: number where
  "thresholds_average_target = 120"

text \<open>The callback of the \<open>reduce\<close> in \<open>combineGlucoseStats\<close>.\<close>

definition combineStep ::
  "GlucoseStatsWithVolatility \<Rightarrow> GlucoseStatsWithVolatility \<Rightarrow> GlucoseStatsWithVolatility"
where
  "combineStep acc s =
     \<lparr>stat_min = min (stat_min acc) (stat_min s),
      stat_max = max (stat_max acc) (stat_max s),
      avg = avg acc + avg s,
      timeInRange = timeInRange acc + timeInRange s,
      volatility = volatility acc + volatility s\<rparr>"

definition combineGlucoseStats ::
  "GlucoseStatsWithVolatility list \<Rightarrow> GlucoseStatsWithVolatility"
where
  "combineGlucoseStats statsArray =
     (if length statsArray = 0 then
        \<lparr>stat_min = Finite 70, stat_max = Finite 180, avg = 120, timeInRange = 70,
         volatility = 25\<rparr>
      else if length statsArray = 1 then statsArray ! 0
      else
        let combined =
              foldl combineStep
                \<lparr>stat_min = Infinity, stat_max = NegInfinity, avg = 0, timeInRange = 0,
                 volatility = 0\<rparr>
                statsArray
        in \<lparr>stat_min = stat_min combined,
            stat_max = stat_max combined,
            avg = avg combined / of_nat (length statsArray),
            timeInRange = timeInRange combined / of_nat (length statsArray),
            volatility = volatility combined / of_nat (length statsArray)\<rparr>)"

text \<open>
  The second parameter of \<open>normalizeGlucoseStat\<close> has the type
  \<open>'volatility' | 'average' | 'timeInRange'\<close>; the \<open>default\<close> branch of the switch is
  outside that type.
\<close>

datatype StatType = Volatility | Average | TimeInRange

definition normalizeGlucoseStat :: "number \<Rightarrow> StatType \<Rightarrow> number" where
  "normalizeGlucoseStat v ty =
     (case ty of
        Volatility \<Rightarrow>
          min 1 (max 0 ((v - thresholds_volatility_low) /
                        (thresholds_volatility_high - thresholds_volatility_low)))
      | Average \<Rightarrow>
          if v \<le> thresholds_average_low then 0
          else if v \<ge> thresholds_average_high then 1
          else if v \<le> thresholds_average_target then
            (1/2) * (v - thresholds_average_low) /
              (thresholds_average_target - thresholds_average_low)
          else
            1/2 + (1/2) * (v - thresholds_average_target) /
              (thresholds_average_high - thresholds_average_target)
      | TimeInRange \<Rightarrow> min 1 (max 0 (v / 100)))"

section \<open>Strings\<close>

text \<open>
  Strings are lists of 8-bit characters; the definitions below give the JavaScript
  string functions on ASCII text (case mapping of letters A to Z, the ASCII white space
  characters for \<open>trim\<close> and for \<open>\s\<close>).
\<close>

definition isDigit :: "char \<Rightarrow> bool" where
  "isDigit c = (48 \<le> (of_char c :: nat) \<and> (of_char c :: nat) \<le> 57)"

definition isSpace :: "char \<Rightarrow> bool" where
  "isSpace c = ((of_char c :: nat) \<in> {9, 10, 11, 12, 13, 32})"

definition trim :: "string \<Rightarrow> string" where
  "trim s = rev (dropWhile isSpace (rev (dropWhile isSpace s)))"

definition lowerChar :: "char \<Rightarrow> char" where
  "lowerChar c =
     (if 65 \<le> (of_char c :: nat) \<and> (of_char c :: nat) \<le> 90
      then char_of ((of_char c :: nat) + 32) else c)"

definition toLowerCase :: "string \<Rightarrow> string" where
  "toLowerCase s = map lowerChar s"

fun startsWith :: "string \<Rightarrow> string \<Rightarrow> bool" where
  "startsWith s [] = True"
| "startsWith [] (p # ps) = False"
| "startsWith (c # cs) (p # ps) = (c = p \<and> startsWith cs ps)"

fun str_includes :: "string \<Rightarrow> string \<Rightarrow> bool" where
  "str_includes [] sub = (sub = [])"
| "str_includes (c # cs) sub = (startsWith (c # cs) sub \<or> str_includes cs sub)"

text \<open>\<open>str.split(/\r?\n/)\<close>: a line ends at a line feed, which may follow a carriage return.\<close>

fun splitLines :: "string \<Rightarrow> string list" where
  "splitLines [] = [[]]"
| "splitLines [c] = (if c = CHR 0x0A then [[], []] else [[c]])"
| "splitLines (c # d # cs) =
     (if c = CHR 0x0D \<and> d = CHR 0x0A then [] # splitLines cs
      else if c = CHR 0x0A then [] # splitLines (d # cs)
      else (case splitLines (d # cs) of
              [] \<Rightarrow> [[c]]
            | l # ls \<Rightarrow> (c # l) # ls))"

text \<open>\<open>headers.join(' ')\<close>.\<close>

fun joinWith :: "string \<Rightarrow> string list \<Rightarrow> string" where
  "joinWith sep [] = []"
| "joinWith sep [x] = x"
| "joinWith sep (x # y # ys) = x @ sep @ joinWith sep (y # ys)"

text \<open>
  \<open>parseInt\<close> is only applied to groups captured by \<open>\d\<close>, which are non-empty strings
  of decimal digits; it reads the leading digits.
\<close>

definition digitsValue :: "string \<Rightarrow> nat" where
  "digitsValue ds = foldl (\<lambda>a c. 10 * a + ((of_char c :: nat) - 48)) 0 ds"

definition parseInt :: "string \<Rightarrow> int" where
  "parseInt s = int (digitsValue (takeWhile isDigit s))"

text \<open>
  \<open>parseFloat\<close>: leading white space, an optional sign, then either the word
  \<open>Infinity\<close> or a decimal literal, that is digits with an optional fraction (or a
  fraction alone) and an optional exponent; the rest of the string is ignored. A string
  with neither is NaN; a literal too large for a finite double is infinite.
\<close>

definition parseExponent :: "string \<Rightarrow> int" where
  "parseExponent s =
     (if s \<noteq> [] \<and> (hd s = CHR ''e'' \<or> hd s = CHR ''E'') then
        let r = tl s;
            neg = (r \<noteq> [] \<and> hd r = CHR ''-'');
            r' = (if r \<noteq> [] \<and> (hd r = CHR ''-'' \<or> hd r = CHR ''+'') then tl r else r);
            ds = takeWhile isDigit r'
        in if ds = [] then 0
           else if neg then - int (digitsValue ds) else int (digitsValue ds)
      else 0)"

definition parseFloat :: "string \<Rightarrow> jsnumber" where
  "parseFloat str =
     (let s = dropWhile isSpace str;
          neg = (s \<noteq> [] \<and> hd s = CHR ''-'');
          s1 = (if s \<noteq> [] \<and> (hd s = CHR ''-'' \<or> hd s = CHR ''+'') then tl s else s)
      in if startsWith s1 ''Infinity'' then (if neg then Num NegInfinity else Num Infinity)
         else
           let ip = takeWhile isDigit s1;
               r1 = dropWhile isDigit s1;
               hasDot = (r1 \<noteq> [] \<and> hd r1 = CHR ''.'');
               fp = (if hasDot then takeWhile isDigit (tl r1) else []);
               r2 = (if hasDot then dropWhile isDigit (tl r1) else r1)
           in if ip = [] \<and> fp = [] then NaN
              else
                let mant = of_nat (digitsValue ip) + of_nat (digitsValue fp) / 10 ^ length fp;
                    e = parseExponent r2;
                    m = (if 0 \<le> e then mant * 10 ^ nat e else mant / 10 ^ nat (- e))
                in fromExact (if neg then - m else m))"

section \<open>Dates\<close>

text \<open>
  Day number of a calendar date in the proleptic Gregorian calendar (day 0 is
  1970-01-01), and the calendar date of a day number; months count from 1 here.
\<close>

definition daysFromCivil :: "int \<Rightarrow> int \<Rightarrow> int \<Rightarrow> int" where
  "daysFromCivil y m d =
     (let y' = (if m \<le> 2 then y - 1 else y);
          era = y' div 400;
          yoe = y' - era * 400;
          doy = (153 * (if m > 2 then m - 3 else m + 9) + 2) div 5 + d - 1;
          doe = yoe * 365 + yoe div 4 - yoe div 100 + doy
      in era * 146097 + doe - 719468)"

definition civilFromDays :: "int \<Rightarrow> int \<times> int \<times> int" where
  "civilFromDays z0 =
     (let z = z0 + 719468;
          era = z div 146097;
          doe = z - era * 146097;
          yoe = (doe - doe div 1460 + doe div 36524 - doe div 146096) div 365;
          y = yoe + era * 400;
          doy = doe - (365 * yoe + yoe div 4 - yoe div 100);
          mp = (5 * doy + 2) div 153;
          d = doy - (153 * mp + 2) div 5 + 1;
          m = (if mp < 10 then mp + 3 else mp - 9)
      in (if m \<le> 2 then y + 1 else y, m, d))"

text \<open>
  \<open>new Date(year, month, day, hour, minute)\<close>: a year from 0 to 99 stands for 1900 plus
  that year; seconds and milliseconds are 0.
\<close>

definition newDate :: "int \<Rightarrow> int \<Rightarrow> int \<Rightarrow> int \<Rightarrow> int \<Rightarrow> Date" where
  "newDate y m d h mi =
     \<lparr>dYear = (if 0 \<le> y \<and> y \<le> 99 then 1900 + y else y),
      dMonth = m, dDay = d, dHours = h, dMinutes = mi, dSeconds = 0, dMilliseconds = 0\<rparr>"

text \<open>Milliseconds since the epoch, in local time: fields out of range carry over.\<close>

definition getTime :: "Date \<Rightarrow> int" where
  "getTime dt =
     (let ym = dYear dt + dMonth dt div 12;
          mn = dMonth dt mod 12;
          dayNumber = daysFromCivil ym (mn + 1) 1 + (dDay dt - 1)
      in (((dayNumber * 24 + dHours dt) * 60 + dMinutes dt) * 60 + dSeconds dt) * 1000
         + dMilliseconds dt)"

definition getFullYear :: "Date \<Rightarrow> int" where
  "getFullYear dt = fst (civilFromDays (getTime dt div 86400000))"

definition getMonth :: "Date \<Rightarrow> int" where
  "getMonth dt = fst (snd (civilFromDays (getTime dt div 86400000))) - 1"

definition getDate :: "Date \<Rightarrow> int" where
  "getDate dt = snd (snd (civilFromDays (getTime dt div 86400000)))"

text \<open>\<open>String(n)\<close> for an integer, and \<open>padStart(2, '0')\<close>.\<close>

fun showNat :: "nat \<Rightarrow> string" where
  "showNat n =
     (if n < 10 then [char_of (48 + n)]
      else showNat (n div 10) @ [char_of (48 + n mod 10)])"

definition showInt :: "int \<Rightarrow> string" where
  "showInt i = (if i < 0 then CHR ''-'' # showNat (nat (- i)) else showNat (nat i))"

definition padStart2 :: "string \<Rightarrow> string" where
  "padStart2 s = replicate (2 - length s) CHR ''0'' @ s"

section \<open>The LibreView parser (parser/libreview.ts)\<close>

subsection \<open>Rows\<close>

text \<open>
  The loop of \<open>parseCSVLine\<close>, with its three variables \<open>result\<close>, \<open>current\<close> and
  \<open>inQuotes\<close>.
\<close>

fun parseCSVLoop :: "string \<Rightarrow> string list \<Rightarrow> string \<Rightarrow> bool \<Rightarrow> string list" where
  "parseCSVLoop [] result current inQuotes = result @ [current]"
| "parseCSVLoop (c # rest) result current inQuotes =
     (if c = CHR 0x22 then parseCSVLoop rest result current (\<not> inQuotes)
      else if c = CHR '','' \<and> \<not> inQuotes then parseCSVLoop rest (result @ [current]) [] inQuotes
      else parseCSVLoop rest result (current @ [c]) inQuotes)"

definition parseCSVLine :: "string \<Rightarrow> string list" where
  "parseCSVLine line = parseCSVLoop line [] [] False"

definition detectUnit :: "string list \<Rightarrow> GlucoseUnit" where
  "detectUnit headers =
     (let headerStr = toLowerCase (joinWith '' '' headers)
      in if str_includes headerStr ''mmol/l'' then MmolL else MgDl)"

text \<open>\<open>col in row && row[col]\<close>: the key is present and its value is not the empty string.\<close>

definition hasValue :: "CSVRow \<Rightarrow> string \<Rightarrow> bool" where
  "hasValue row col = (case map_of row col of None \<Rightarrow> False | Some v \<Rightarrow> v \<noteq> [])"

definition glucoseColumns :: "string list" where
  "glucoseColumns =
     [''Historic Glucose mg/dL'',
      ''Historic Glucose mmol/L'',
      ''Scan Glucose mg/dL'',
      ''Scan Glucose mmol/L'',
      ''Historic Glucose (mg/dL)'',
      ''Historic Glucose (mmol/L)'']"

definition findGlucoseColumn :: "CSVRow \<Rightarrow> string option" where
  "findGlucoseColumn row =
     (case find (hasValue row) glucoseColumns of
        Some col \<Rightarrow> Some col
      | None \<Rightarrow>
          find (\<lambda>key.
                  (str_includes (toLowerCase key) ''historic glucose'' \<and> hasValue row key) \<or>
                  (str_includes (toLowerCase key) ''scan glucose'' \<and> hasValue row key))
               (map fst row))"

definition timestampColumns :: "string list" where
  "timestampColumns = [''Device Timestamp'', ''Timestamp'', ''Time'', ''Date/Time'']"

definition findTimestampColumn :: "CSVRow \<Rightarrow> string option" where
  "findTimestampColumn row =
     (case find (\<lambda>col. map_of row col \<noteq> None) timestampColumns of
        Some col \<Rightarrow> Some col
      | None \<Rightarrow> find (\<lambda>key. str_includes (toLowerCase key) ''timestamp'') (map fst row))"

subsection \<open>Timestamps\<close>

text \<open>
  The regular expression of \<open>parseTimestamp\<close>,
  \<open>(\d{1,4})[-\/.](\d{1,2})[-\/.](\d{1,4})\s+(\d{1,2}):(\d{2})(?::(\d{2}))?\<close>,
  as a backtracking matcher. \<open>rep P lo hi s\<close> lists the ways in which a greedy
  repetition of \<open>lo\<close> to \<open>hi\<close> characters satisfying \<open>P\<close> can match a prefix of
  \<open>s\<close>, longest first, each with the rest of the string; \<open>firstSome\<close> takes the first
  alternative under which the rest of the pattern matches. The last, optional group
  cannot fail and is not read by the code, so the matcher stops after the minutes.
\<close>

definition rep :: "(char \<Rightarrow> bool) \<Rightarrow> nat \<Rightarrow> nat \<Rightarrow> string \<Rightarrow> (string \<times> string) list" where
  "rep P lo hi s =
     map (\<lambda>k. (take k s, drop k s)) (rev [lo ..< Suc (min hi (length (takeWhile P s)))])"

fun firstSome :: "('a \<Rightarrow> 'b option) \<Rightarrow> 'a list \<Rightarrow> 'b option" where
  "firstSome f [] = None"
| "firstSome f (x # xs) = (case f x of Some y \<Rightarrow> Some y | None \<Rightarrow> firstSome f xs)"

definition repThen ::
  "(char \<Rightarrow> bool) \<Rightarrow> nat \<Rightarrow> nat \<Rightarrow> (string \<Rightarrow> string \<Rightarrow> 'a option) \<Rightarrow> string \<Rightarrow> 'a option"
where
  "repThen P lo hi k s = firstSome (\<lambda>(g, r). k g r) (rep P lo hi s)"

definition charThen :: "(char \<Rightarrow> bool) \<Rightarrow> (string \<Rightarrow> 'a option) \<Rightarrow> string \<Rightarrow> 'a option" where
  "charThen P k s = (case s of [] \<Rightarrow> None | c # r \<Rightarrow> if P c then k r else None)"

definition isSep :: "char \<Rightarrow> bool" where
  "isSep c = (c = CHR ''-'' \<or> c = CHR ''/'' \<or> c = CHR ''.'')"

definition isColon :: "char \<Rightarrow> bool" where
  "isColon c = (c = CHR '':'')"

type_synonym dateParts = "string \<times> string \<times> string \<times> string \<times> string"

definition matchHere :: "string \<Rightarrow> dateParts option" where
  "matchHere =
     repThen isDigit 1 4 (\<lambda>p1.
     charThen isSep (
     repThen isDigit 1 2 (\<lambda>p2.
     charThen isSep (
     repThen isDigit 1 4 (\<lambda>p3 s.
     repThen isSpace 1 (length s) (\<lambda>sp.
     repThen isDigit 1 2 (\<lambda>hour.
     charThen isColon (
     repThen isDigit 2 2 (\<lambda>minute rest.
       Some (p1, p2, p3, hour, minute))))) s)))))"

text \<open>\<open>str.match\<close> without the global flag: the match at the leftmost position that has one.\<close>

fun regexSearch :: "string \<Rightarrow> dateParts option" where
  "regexSearch [] = matchHere []"
| "regexSearch (c # cs) =
     (case matchHere (c # cs) of Some m \<Rightarrow> Some m | None \<Rightarrow> regexSearch cs)"

text \<open>
  \<open>parseTimestamp\<close>. What \<open>new Date(str)\<close> accepts in the fallback branch depends on
  the platform; it is the parameter \<open>nativeDate\<close>, which gives \<open>None\<close> for a string whose
  date is invalid.
\<close>

definition parseTimestamp :: "(string \<Rightarrow> Date option) \<Rightarrow> string \<Rightarrow> Date option" where
  "parseTimestamp nativeDate str =
     (if str = [] then None
      else
        case regexSearch str of
          Some (p1, p2, p3, hour, minute) \<Rightarrow>
            let (year, month, day) =
                  (if length p1 = 4 then (parseInt p1, parseInt p2 - 1, parseInt p3)
                   else if length p3 = 4 then
                     let n1 = parseInt p1;
                         n2 = parseInt p2
                     in if n1 > 12 then (parseInt p3, n2 - 1, n1)
                        else if n2 > 12 then (parseInt p3, n1 - 1, n2)
                        else (parseInt p3, n2 - 1, n1)
                   else (2000 + parseInt p1, parseInt p2 - 1, parseInt p3))
            in Some (newDate year month day (parseInt hour) (parseInt minute))
        | None \<Rightarrow> nativeDate str)"

subsection \<open>Readings\<close>

text \<open>
  The body of the loop of \<open>parseGlucoseReadings\<close> for one row: \<open>None\<close> where the code
  continues with the next row, the reading it pushes otherwise. A row without the
  timestamp key hands \<open>undefined\<close> to \<open>parseTimestamp\<close>, which returns \<open>null\<close>. The
  test \<open>isNaN(value)\<close> lets the infinite values through.
\<close>

definition readingOfRow ::
  "(string \<Rightarrow> Date option) \<Rightarrow> string option \<Rightarrow> GlucoseUnit \<Rightarrow> CSVRow \<Rightarrow> GlucoseReading option"
where
  "readingOfRow nativeDate timestampCol u row =
     (case (findGlucoseColumn row, timestampCol) of
        (Some glucoseCol, Some tsCol) \<Rightarrow>
          (case map_of row glucoseCol of
             None \<Rightarrow> None
           | Some valueStr \<Rightarrow>
               if valueStr = [] \<or> valueStr = ''Lo'' \<or> valueStr = ''Hi'' then None
               else
                 let v = parseFloat valueStr
                 in if v = NaN then None
                    else
                      let normalizedValue =
                            (if u = MmolL then jmul v (fin (180182 / 10000)) else v)
                      in (case Option.bind (map_of row tsCol) (parseTimestamp nativeDate) of
                            None \<Rightarrow> None
                          | Some ts \<Rightarrow>
                              Some \<lparr>timestamp = ts,
                                    value = normalizedValue,
                                    recordType =
                                      (if str_includes (toLowerCase glucoseCol) ''scan''
                                       then 1 else 0)\<rparr>))
      | _ \<Rightarrow> None)"

text \<open>The readings in the order of their rows, before the sort.\<close>

definition collectReadings ::
  "(string \<Rightarrow> Date option) \<Rightarrow> CSVRow list \<Rightarrow> GlucoseUnit \<Rightarrow> GlucoseReading list"
where
  "collectReadings nativeDate rows u =
     (case rows of
        [] \<Rightarrow> []
      | row0 # _ \<Rightarrow> List.map_filter (readingOfRow nativeDate (findTimestampColumn row0) u) rows)"

text \<open>
  \<open>readings.sort((a, b) => a.timestamp.getTime() - b.timestamp.getTime())\<close>:
  \<open>Array.prototype.sort\<close> is a stable sort, here by the key \<open>getTime\<close>.
\<close>

definition parseGlucoseReadings ::
  "(string \<Rightarrow> Date option) \<Rightarrow> CSVRow list \<Rightarrow> GlucoseUnit \<Rightarrow> GlucoseReading list"
where
  "parseGlucoseReadings nativeDate rows u =
     sort_key (\<lambda>r. getTime (timestamp r)) (collectReadings nativeDate rows u)"

subsection \<open>Days\<close>

definition formatDateKey :: "Date \<Rightarrow> string" where
  "formatDateKey dt =
     (let y = getFullYear dt;
          m = padStart2 (showInt (getMonth dt + 1));
          d = padStart2 (showInt (getDate dt))
      in showInt y @ ''-'' @ m @ ''-'' @ d)"

text \<open>\<open>calculateDayStats\<close> writes the \<open>stats\<close> field of the day; the model returns the day.\<close>

definition calculateDayStats :: "DailyGlucoseData \<Rightarrow> DailyGlucoseData" where
  "calculateDayStats dayData =
     (let vals = map value (readings dayData)
      in if length vals = 0 then
           dayData\<lparr>stats := \<lparr>stat_min = fin 0, stat_max = fin 0, avg = fin 0,
                               timeInRange = 0\<rparr>\<rparr>
         else
           let mn = mathMin vals;
               mx = mathMax vals;
               mean = jdiv (foldl jadd (fin 0) vals) (fin (of_nat (length vals)));
               inRange = length (filter (\<lambda>v. v \<ge> fin 70 \<and> v \<le> fin 180) vals);
               tir = (of_nat inRange / of_nat (length vals)) * 100
           in dayData\<lparr>stats := \<lparr>stat_min = mn, stat_max = mx, avg = mean,
                                  timeInRange = tir\<rparr>\<rparr>)"

text \<open>The body of the first loop of \<open>groupReadingsByDay\<close>.\<close>

definition addReading ::
  "(string \<times> DailyGlucoseData) list \<Rightarrow> GlucoseReading \<Rightarrow> (string \<times> DailyGlucoseData) list"
where
  "addReading ds reading =
     (let dateKey = formatDateKey (timestamp reading);
          ds' = (if map_of ds dateKey = None then
                   ds @ [(dateKey,
                          \<lparr>date = dateKey, readings = [], wavetable = None,
                           stats = \<lparr>stat_min = Num Infinity, stat_max = Num NegInfinity,
                                    avg = fin 0, timeInRange = 0\<rparr>\<rparr>)]
                 else ds)
      in AList.map_entry dateKey (\<lambda>d. d\<lparr>readings := readings d @ [reading]\<rparr>) ds')"

definition groupReadingsByDay ::
  "GlucoseReading list \<Rightarrow> (string \<times> DailyGlucoseData) list"
where
  "groupReadingsByDay rs = map (\<lambda>(k, d). (k, calculateDayStats d)) (foldl addReading [] rs)"

subsection \<open>The export as a whole\<close>

definition isHeaderLine :: "string \<Rightarrow> bool" where
  "isHeaderLine line =
     (str_includes (toLowerCase line) ''device'' \<and> str_includes (toLowerCase line) ''timestamp'')"

text \<open>The header search: the first index below \<open>min 10 (length lines)\<close> with a header line, else 0.\<close>

definition findHeaderIndex :: "string list \<Rightarrow> nat" where
  "findHeaderIndex lines =
     (case filter (\<lambda>i. isHeaderLine (lines ! i)) [0 ..< min 10 (length lines)] of
        [] \<Rightarrow> 0
      | i # _ \<Rightarrow> i)"

text \<open>
  One row per data line with as many fields as the header:
  \<open>row[header.trim()] = values[idx]?.trim() || ''\<close> for every header, in order.
\<close>

definition rowOf :: "string list \<Rightarrow> string list \<Rightarrow> CSVRow" where
  "rowOf headers vals =
     foldl (\<lambda>row (header, v). AList.update (trim header) (trim v) row) [] (zip headers vals)"

text \<open>\<open>rows[0]?.[key] || dflt\<close>.\<close>

definition firstRowField :: "CSVRow list \<Rightarrow> string \<Rightarrow> string \<Rightarrow> string" where
  "firstRowField rows key dflt =
     (case rows of
        [] \<Rightarrow> dflt
      | row0 # _ \<Rightarrow>
          (case map_of row0 key of
             None \<Rightarrow> dflt
           | Some v \<Rightarrow> if v = [] then dflt else v))"

text \<open>Everything \<open>parseLibreViewCSV\<close> does once the header index is known.\<close>

definition parseFromHeader ::
  "(string \<Rightarrow> Date option) \<Rightarrow> string list \<Rightarrow> nat \<Rightarrow> ParsedLibreViewData"
where
  "parseFromHeader nativeDate lines headerIndex =
     (let headers = parseCSVLine (lines ! headerIndex);
          rows = map (rowOf headers)
                   (filter (\<lambda>vals. length vals = length headers)
                      (map parseCSVLine (drop (headerIndex + 1) lines)));
          u = detectUnit headers;
          device = firstRowField rows ''Device'' ''Unknown Device'';
          serial = firstRowField rows ''Serial Number'' '''';
          rs = parseGlucoseReadings nativeDate rows u
      in \<lparr>days = groupReadingsByDay rs, unit = u, deviceName = device,
          serialNumber = serial\<rparr>)"

definition parseLibreViewCSV :: "(string \<Rightarrow> Date option) \<Rightarrow> string \<Rightarrow> ParsedLibreViewData" where
  "parseLibreViewCSV nativeDate csvContent =
     (let lines = splitLines (trim csvContent)
      in parseFromHeader nativeDate lines (findHeaderIndex lines))"

section \<open>The invariant of the day grouping\<close>

text \<open>
  While \<open>groupReadingsByDay\<close> runs over the readings \<open>rs\<close> seen so far, the keys of
  the map are distinct, every day holds the readings of its date key in their order in
  \<open>rs\<close>, and every reading seen has its day.
\<close>

definition dayInv :: "(string \<times> DailyGlucoseData) list \<Rightarrow> GlucoseReading list \<Rightarrow> bool" where
  "dayInv ds rs \<longleftrightarrow>
     distinct (map fst ds) \<and>
     (\<forall>k d. map_of ds k = Some d \<longrightarrow>
        readings d = filter (\<lambda>r. formatDateKey (timestamp r) = k) rs) \<and>
     (\<forall>r \<in> set rs. map_of ds (formatDateKey (timestamp r)) \<noteq> None)"

section \<open>Example inputs\<close>

definition readingAt :: "int \<Rightarrow> int \<Rightarrow> number \<Rightarrow> GlucoseReading" where
  "readingAt h mi v = \<lparr>timestamp = newDate 2024 5 1 h mi, value = fin v, recordType = 0\<rparr>"

definition dayOf :: "GlucoseReading list \<Rightarrow> DailyGlucoseData" where
  "dayOf rs =
     \<lparr>date = ''2024-06-01'', readings = rs, wavetable = None,
      stats = \<lparr>stat_min = Num Infinity, stat_max = Num NegInfinity, avg = fin 0,
               timeInRange = 0\<rparr>\<rparr>"

definition statsA :: GlucoseStatsWithVolatility where
  "statsA = \<lparr>stat_min = Finite 60, stat_max = Finite 200, avg = 110, timeInRange = 80,
             volatility = 30\<rparr>"

definition statsB :: GlucoseStatsWithVolatility where
  "statsB = \<lparr>stat_min = Finite 75, stat_max = Finite 240, avg = 130, timeInRange = 60,
             volatility = 10\<rparr>"

definition exampleRows :: "CSVRow list" where
  "exampleRows =
     [[(''Device Timestamp'', ''02-06-2024 10:00''), (''Historic Glucose mg/dL'', ''110'')],
      [(''Device Timestamp'', ''01-06-2024 10:05''), (''Historic Glucose mg/dL'', ''120'')],
      [(''Device Timestamp'', ''01-06-2024 10:05''), (''Historic Glucose mg/dL'', ''130'')],
      [(''Device Timestamp'', ''01-06-2024 09:55''), (''Historic Glucose mg/dL'', ''140'')]]"

definition csvOneReading :: string where
  "csvOneReading =
     ''Device Timestamp,Historic Glucose mg/dL'' @ [CHR 0x0A] @ ''01-06-2024 10:00,120''"

definition csvNoHeader :: string where
  "csvNoHeader =
     ''Timestamp,Historic Glucose mg/dL'' @ [CHR 0x0A] @ ''01-06-2024 10:00,120''"

definition dayOneReading :: DailyGlucoseData where
  "dayOneReading =
     \<lparr>date = ''2024-06-01'',
      readings = [\<lparr>timestamp = newDate 2024 5 1 10 0, value = fin 120, recordType = 0\<rparr>],
      wavetable = None,
      stats = \<lparr>stat_min = fin 120, stat_max = fin 120, avg = fin 120, timeInRange = 100\<rparr>\<rparr>"

text \<open>The same export and day with the reading \<open>Infinity\<close> in place of 120.\<close>

definition csvInfinity :: string where
  "csvInfinity =
     ''Device Timestamp,Historic Glucose mg/dL'' @ [CHR 0x0A] @ ''01-06-2024 10:00,Infinity''"

definition dayInfinity :: DailyGlucoseData where
  "dayInfinity =
     \<lparr>date = ''2024-06-01'',
      readings = [\<lparr>timestamp = newDate 2024 5 1 10 0, value = Num Infinity,
                   recordType = 0\<rparr>],
      wavetable = None,
      stats = \<lparr>stat_min = Num Infinity, stat_max = Num Infinity, avg = Num Infinity,
               timeInRange = 0\<rparr>\<rparr>"

section \<open>Properties of the numbers\<close>

lemma overflowBound_numeral [code]:
  "overflowBound = 179769313486231580793728971405303415079934132710037826936173778980444968292764750946649017977587207096330286416692887910946555547851940402630657488671505820681908902000708383676273854845817711531764475730270069855571366959622842914819860834936475292719074168444365510704342711559699508093042880177904174497792"
  by (simp add: overflowBound_def)

lemma overflowBound_pos: "0 < overflowBound"
  by (simp add: overflowBound_numeral)

lemma fromExact_fin: "\<bar>r\<bar> < overflowBound \<Longrightarrow> fromExact r = fin r"
  by (auto simp add: fromExact_def)

lemma fromExact_0: "fromExact 0 = fin 0"
  using overflowBound_pos by (simp add: fromExact_fin)

lemma fin_le_iff: "fin a \<le> fin b \<longleftrightarrow> a \<le> b"
  by (simp add: less_eq_jsnumber_def less_eq_xnumber_def)

lemma jadd_NaN_right: "jadd a NaN = NaN"
  by (cases a) simp_all

lemma jmul_NaN_right: "jmul a NaN = NaN"
  by (cases a) simp_all

lemma xmul_zero_fin: "xmul (Finite 0) (Finite c) = fin 0"
  by (simp add: xmul_def fromExact_0)

lemma xadd_zero_zero: "xadd (Finite 0) (Finite 0) = fin 0"
  by (simp add: xadd_def fromExact_0)

lemma jsub_self_fin: "jsub (fin m) (fin m) = fin 0"
  by (simp add: jsub_def xadd_def fromExact_0)

lemma jsub_Infinity_Infinity: "jsub (Num Infinity) (Num Infinity) = NaN"
  by (simp add: jsub_def xadd_def)

text \<open>
  Linear interpolation between two finite samples does not overflow: it is the exact
  value.
\<close>

lemma lerp_finite:
  assumes a: "\<bar>a\<bar> < overflowBound" and b: "\<bar>b\<bar> < overflowBound"
    and f0: "0 \<le> f" and f1: "f \<le> 1"
  shows "jadd (jmul (fin a) (fin (1 - f))) (jmul (fin b) (fin f)) = fin (a * (1 - f) + b * f)"
proof -
  have g0: "0 \<le> 1 - f" using f1 by simp
  have pa: "\<bar>a * (1 - f)\<bar> = \<bar>a\<bar> * (1 - f)"
    using g0 by (simp add: abs_mult)
  have pb: "\<bar>b * f\<bar> = \<bar>b\<bar> * f"
    using f0 by (simp add: abs_mult)
  have la: "\<bar>a\<bar> * (1 - f) \<le> \<bar>a\<bar> * 1"
    using f0 by (intro mult_left_mono) simp_all
  have lb: "\<bar>b\<bar> * f \<le> \<bar>b\<bar> * 1"
    using f1 by (intro mult_left_mono) simp_all
  have ba: "\<bar>a * (1 - f)\<bar> < overflowBound" using pa la a by simp
  have bb: "\<bar>b * f\<bar> < overflowBound" using pb lb b by simp
  define M where "M = max \<bar>a\<bar> \<bar>b\<bar>"
  have M: "M < overflowBound" using a b by (simp add: M_def)
  have "\<bar>a\<bar> * (1 - f) \<le> M * (1 - f)"
    using g0 by (intro mult_right_mono) (simp_all add: M_def)
  moreover have "\<bar>b\<bar> * f \<le> M * f"
    using f0 by (intro mult_right_mono) (simp_all add: M_def)
  ultimately have "\<bar>a\<bar> * (1 - f) + \<bar>b\<bar> * f \<le> M * (1 - f) + M * f"
    by simp
  also have "\<dots> = M" by (simp add: algebra_simps)
  finally have s: "\<bar>a\<bar> * (1 - f) + \<bar>b\<bar> * f \<le> M" .
  have "\<bar>a * (1 - f) + b * f\<bar> \<le> \<bar>a * (1 - f)\<bar> + \<bar>b * f\<bar>"
    by (rule abs_triangle_ineq)
  then have "\<bar>a * (1 - f) + b * f\<bar> \<le> M" using s pa pb by simp
  then have bs: "\<bar>a * (1 - f) + b * f\<bar> < overflowBound" using M by simp
  show ?thesis
    by (simp add: xmul_def xadd_def fromExact_fin [OF ba] fromExact_fin [OF bb]
        fromExact_fin [OF bs])
qed

section \<open>Properties of the wavetable\<close>

lemma length_normalizeGlucoseValues:
  "length (normalizeGlucoseValues vals) = length vals"
  by (simp add: normalizeGlucoseValues_def Let_def)

lemma length_resampleSamples:
  "length (resampleSamples vals targetSize) = targetSize"
  by (simp add: resampleSamples_def Let_def)

lemma length_resampleToWavetableSize:
  "length (resampleToWavetableSize vals targetSize) = targetSize"
  by (simp add: resampleToWavetableSize_def Let_def)

lemma length_smoothPass: "length (smoothPass w) = length w"
  by (simp add: smoothPass_def)

lemma length_smoothWavetable: "length (smoothWavetable w passes) = length w"
  by (induction passes arbitrary: w) (simp_all add: length_smoothPass)

text \<open>
  Claim C4. Whatever the number of readings of the day (none, one, many, or exactly
  2048), \<open>generateWavetable\<close> returns a wavetable of exactly 2048 samples.
\<close>

theorem generateWavetable_length:
  "length (generateWavetable dayData) = 2048"
  by (simp add: generateWavetable_def Let_def WAVETABLE_SIZE_def
      length_smoothWavetable length_resampleSamples)

text \<open>
  Neither the smoothing nor the resampling reads outside its array: the circular
  neighbours of a sample and the source index of a target sample are indices of the array.
\<close>

lemma smoothPass_indices_in_range:
  assumes "i < length w"
  shows "nat ((int i - 1 + int (length w)) mod int (length w)) < length w"
    and "nat ((int i + 1) mod int (length w)) < length w"
proof -
  have n: "0 < int (length w)" using assms by (cases w) simp_all
  have "(int i - 1 + int (length w)) mod int (length w) < int (length w)"
    using n by (rule pos_mod_bound)
  moreover have "0 \<le> (int i - 1 + int (length w)) mod int (length w)"
    using n by (rule pos_mod_sign)
  ultimately show "nat ((int i - 1 + int (length w)) mod int (length w)) < length w"
    by linarith
  have "(int i + 1) mod int (length w) < int (length w)"
    using n by (rule pos_mod_bound)
  moreover have "0 \<le> (int i + 1) mod int (length w)"
    using n by (rule pos_mod_sign)
  ultimately show "nat ((int i + 1) mod int (length w)) < length w"
    by linarith
qed

lemma srcIndex_in_range:
  assumes "i < T" "0 < n"
  shows "nat \<lfloor>of_nat i * ((of_nat n :: rat) / of_nat T)\<rfloor> < n"
proof -
  have T: "(0::rat) < of_nat T" using assms by simp
  have "(of_nat i :: rat) < of_nat T" using assms by simp
  then have "(of_nat i :: rat) * of_nat n < of_nat T * of_nat n"
    using assms by simp
  then have lt: "of_nat i * ((of_nat n :: rat) / of_nat T) < of_nat n"
    using T by (simp add: field_simps)
  have "\<lfloor>of_nat i * ((of_nat n :: rat) / of_nat T)\<rfloor> < int n"
    using lt by (simp add: floor_less_iff)
  then show ?thesis using assms by linarith
qed

text \<open>
  Resampling and smoothing an array all of whose samples are one value \<open>c\<close> that
  interpolation and the weighted average leave alone, as they do 0 and NaN.
\<close>

lemma interpolateSample_const:
  assumes "nat \<lfloor>x\<rfloor> < n"
    and "\<And>f. jadd (jmul c (fin (1 - f))) (jmul c (fin f)) = c"
  shows "interpolateSample (replicate n c) x = c"
  using assms by (simp add: interpolateSample_def Let_def)

lemma resampleSamples_const:
  assumes n: "0 < n"
    and c: "\<And>f. jadd (jmul c (fin (1 - f))) (jmul c (fin f)) = c"
  shows "resampleSamples (replicate n c) T = replicate T c"
proof (cases "n = T")
  case True
  then show ?thesis using n by (simp add: resampleSamples_def)
next
  case False
  have "map (\<lambda>i. interpolateSample (replicate n c) (of_nat i * (of_nat n / of_nat T))) [0..<T]
        = map (\<lambda>i. c) [0..<T]"
  proof (rule map_cong)
    fix i assume "i \<in> set [0..<T]"
    then have "i < T" by simp
    from srcIndex_in_range [OF this n]
    show "interpolateSample (replicate n c) (of_nat i * (of_nat n / of_nat T)) = c"
      using c by (rule interpolateSample_const)
  qed simp
  then show ?thesis using n False
    by (simp add: resampleSamples_def Let_def map_replicate_const)
qed

lemma smoothPass_const:
  assumes c: "jadd (jadd (jmul c (fin (1/4))) (jmul c (fin (1/2)))) (jmul c (fin (1/4))) = c"
  shows "smoothPass (replicate n c) = replicate n c"
proof -
  have "map (\<lambda>i. let m = int n;
                prev = replicate n c ! nat ((int i - 1 + m) mod m);
                curr = replicate n c ! i;
                next = replicate n c ! nat ((int i + 1) mod m)
            in jadd (jadd (jmul prev (fin (1/4))) (jmul curr (fin (1/2))))
                    (jmul next (fin (1/4)))) [0..<n] = map (\<lambda>i. c) [0..<n]"
  proof (rule map_cong)
    fix i assume "i \<in> set [0..<n]"
    then have i: "i < length (replicate n c)" by simp
    have a: "nat ((int i - 1 + int n) mod int n) < n"
      using smoothPass_indices_in_range(1) [OF i] by simp
    have b: "nat ((int i + 1) mod int n) < n"
      using smoothPass_indices_in_range(2) [OF i] by simp
    show "(let m = int n;
                prev = replicate n c ! nat ((int i - 1 + m) mod m);
                curr = replicate n c ! i;
                next = replicate n c ! nat ((int i + 1) mod m)
            in jadd (jadd (jmul prev (fin (1/4))) (jmul curr (fin (1/2))))
                    (jmul next (fin (1/4)))) = c"
      using a b i c by (simp add: Let_def)
  qed simp
  then show ?thesis by (simp add: smoothPass_def map_replicate_const)
qed

lemma smoothWavetable_const:
  assumes "jadd (jadd (jmul c (fin (1/4))) (jmul c (fin (1/2)))) (jmul c (fin (1/4))) = c"
  shows "smoothWavetable (replicate n c) p = replicate n c"
  by (induction p) (simp_all add: smoothPass_const [OF assms])

lemma resampleSamples_zeros: "resampleSamples (replicate n (fin 0)) T = replicate T (fin 0)"
proof (cases "n = 0")
  case True
  then show ?thesis by (simp add: resampleSamples_def)
next
  case False
  then have "0 < n" by simp
  then show ?thesis
    by (rule resampleSamples_const) (simp add: xmul_zero_fin xadd_zero_zero)
qed

lemma smoothWavetable_zeros: "smoothWavetable (replicate n (fin 0)) p = replicate n (fin 0)"
  by (rule smoothWavetable_const) (simp add: xmul_zero_fin xadd_zero_zero)

lemma resampleSamples_NaN: "0 < n \<Longrightarrow> resampleSamples (replicate n NaN) T = replicate T NaN"
  by (rule resampleSamples_const) simp_all

lemma smoothWavetable_NaN: "smoothWavetable (replicate n NaN) p = replicate n NaN"
  by (rule smoothWavetable_const) simp

text \<open>
  A day whose readings all have one finite value: the range is 0, the guard of
  \<open>normalizeGlucoseValues\<close> gives zeros, and resampling and smoothing keep them.
\<close>

lemma normalize_flat:
  assumes "vals \<noteq> []" "mathMax vals = fin m" "mathMin vals = fin m"
  shows "normalizeGlucoseValues vals = replicate (length vals) (fin 0)"
  using assms by (simp add: normalizeGlucoseValues_def Let_def jsub_self_fin)

lemma generateWavetable_flat:
  assumes "readings d \<noteq> []"
    and "mathMax (map value (readings d)) = fin m"
    and "mathMin (map value (readings d)) = fin m"
  shows "generateWavetable d = replicate 2048 (fin 0)"
  using assms
  by (simp add: generateWavetable_def Let_def WAVETABLE_SIZE_def normalize_flat
      resampleSamples_zeros smoothWavetable_zeros)

lemma generateWavetable_empty:
  assumes "readings d = []"
  shows "generateWavetable d = replicate 2048 (fin 0)"
  using assms by (simp add: generateWavetable_def WAVETABLE_SIZE_def)

lemma mathMin_single: "mathMin [Num x] = Num x"
  by (cases x) (simp_all add: mathMin_def min_def less_eq_xnumber_def)

lemma mathMax_single: "mathMax [Num x] = Num x"
  by (cases x) (simp_all add: mathMax_def max_def less_eq_xnumber_def)

text \<open>
  A day whose readings are all \<open>Infinity\<close>: maximum and minimum are equal, their
  difference is NaN, which is not 0, and every sample is NaN.
\<close>

lemma normalize_Infinity:
  "normalizeGlucoseValues [Num Infinity] = [NaN]"
  by (simp add: normalizeGlucoseValues_def Let_def mathMin_single mathMax_single
      jsub_def xadd_def)

lemma interpolateAt_bounds:
  assumes srt: "sorted vals" and x0: "0 \<le> x" and xn: "nat \<lfloor>x\<rfloor> < length vals"
  shows "vals ! nat \<lfloor>x\<rfloor> \<le> interpolateAt vals x"
    and "interpolateAt vals x \<le> vals ! min (nat \<lfloor>x\<rfloor> + 1) (length vals - 1)"
proof -
  define k where "k = nat \<lfloor>x\<rfloor>"
  define c where "c = min (k + 1) (length vals - 1)"
  define f where "f = x - of_nat k"
  have kc: "k \<le> c" "c < length vals" using xn by (auto simp add: c_def k_def)
  have le: "vals ! k \<le> vals ! c" using srt kc by (simp add: sorted_nth_mono)
  have fl: "of_nat k = (of_int \<lfloor>x\<rfloor> :: rat)" using x0 by (simp add: k_def)
  have f0: "0 \<le> f" unfolding f_def fl by simp
  have f1: "f \<le> 1" unfolding f_def fl by linarith
  have eq: "interpolateAt vals x = vals ! k * (1 - f) + vals ! c * f"
    by (simp add: interpolateAt_def Let_def k_def c_def f_def)
  have e1: "vals ! k * (1 - f) + vals ! c * f = vals ! k + (vals ! c - vals ! k) * f"
    by (simp add: algebra_simps)
  have e2: "vals ! k * (1 - f) + vals ! c * f = vals ! c - (vals ! c - vals ! k) * (1 - f)"
    by (simp add: algebra_simps)
  have p1: "0 \<le> (vals ! c - vals ! k) * f" using le f0 by simp
  have p2: "0 \<le> (vals ! c - vals ! k) * (1 - f)" using le f1 by simp
  have "vals ! k \<le> interpolateAt vals x"
    using p1 unfolding eq e1 by simp
  then show "vals ! nat \<lfloor>x\<rfloor> \<le> interpolateAt vals x"
    by (simp add: k_def)
  have "interpolateAt vals x \<le> vals ! c"
    using p2 unfolding eq e2 by simp
  then show "interpolateAt vals x \<le> vals ! min (nat \<lfloor>x\<rfloor> + 1) (length vals - 1)"
    by (simp add: c_def k_def)
qed

lemma interpolateAt_mono:
  assumes srt: "sorted vals" and x0: "0 \<le> x" and xy: "x \<le> y"
    and yn: "nat \<lfloor>y\<rfloor> < length vals"
  shows "interpolateAt vals x \<le> interpolateAt vals y"
proof -
  have y0: "0 \<le> y" using x0 xy by simp
  have kxy: "nat \<lfloor>x\<rfloor> \<le> nat \<lfloor>y\<rfloor>" using xy by (simp add: floor_mono nat_mono)
  then have xn: "nat \<lfloor>x\<rfloor> < length vals" using yn by simp
  show ?thesis
  proof (cases "nat \<lfloor>x\<rfloor> = nat \<lfloor>y\<rfloor>")
    case True
    define k where "k = nat \<lfloor>x\<rfloor>"
    define c where "c = min (k + 1) (length vals - 1)"
    have kc: "k \<le> c" "c < length vals" using xn by (auto simp add: c_def k_def)
    have le: "vals ! k \<le> vals ! c" using srt kc by (simp add: sorted_nth_mono)
    have ex: "interpolateAt vals x = vals ! k + (vals ! c - vals ! k) * (x - of_nat k)"
      by (simp add: interpolateAt_def Let_def k_def c_def algebra_simps)
    have ey: "interpolateAt vals y = vals ! k + (vals ! c - vals ! k) * (y - of_nat k)"
      using True by (simp add: interpolateAt_def Let_def k_def c_def algebra_simps)
    have "(vals ! c - vals ! k) * (x - of_nat k) \<le> (vals ! c - vals ! k) * (y - of_nat k)"
      using le xy by (intro mult_left_mono) simp_all
    then show ?thesis unfolding ex ey by simp
  next
    case False
    then have lt: "nat \<lfloor>x\<rfloor> + 1 \<le> nat \<lfloor>y\<rfloor>" using kxy by simp
    have c: "min (nat \<lfloor>x\<rfloor> + 1) (length vals - 1) \<le> nat \<lfloor>y\<rfloor>" using lt by simp
    have "interpolateAt vals x \<le> vals ! min (nat \<lfloor>x\<rfloor> + 1) (length vals - 1)"
      using interpolateAt_bounds(2) [OF srt x0 xn] .
    also have "\<dots> \<le> vals ! nat \<lfloor>y\<rfloor>"
      using srt c yn by (simp add: sorted_nth_mono)
    also have "\<dots> \<le> interpolateAt vals y"
      using interpolateAt_bounds(1) [OF srt y0 yn] .
    finally show ?thesis .
  qed
qed

lemma resample_sorted:
  assumes srt: "sorted vals"
  shows "sorted (resampleToWavetableSize vals T)"
proof (cases "length vals = 0 \<or> length vals = T")
  case True
  then show ?thesis using srt
    by (auto simp add: resampleToWavetableSize_def sorted_replicate)
next
  case False
  define r :: rat where "r = of_nat (length vals) / of_nat T"
  have n: "0 < length vals" using False by simp
  have r0: "0 \<le> r" by (simp add: r_def)
  have "sorted (map (\<lambda>i. interpolateAt vals (of_nat i * r)) [0..<T])"
  proof (subst sorted_iff_nth_mono, intro allI impI)
    fix i j assume ij: "i \<le> j" and "j < length (map (\<lambda>i. interpolateAt vals (of_nat i * r)) [0..<T])"
    then have j: "j < T" by simp
    then have i: "i < T" using ij by simp
    have a: "(0::rat) \<le> of_nat i * r" using r0 by simp
    have b: "of_nat i * r \<le> of_nat j * r" using ij r0 by (simp add: mult_right_mono)
    have c: "nat \<lfloor>of_nat j * r\<rfloor> < length vals"
      unfolding r_def using srcIndex_in_range [OF j n] .
    show "map (\<lambda>i. interpolateAt vals (of_nat i * r)) [0..<T] ! i
          \<le> map (\<lambda>i. interpolateAt vals (of_nat i * r)) [0..<T] ! j"
      using interpolateAt_mono [OF srt a b c] i j by simp
  qed
  then show ?thesis using False
    by (simp add: resampleToWavetableSize_def Let_def r_def)
qed

text \<open>
  Claim C10. Resampling the three points -1, 0, 1 to size 5 gives a sequence that starts
  with -1 and ends with 1, and the resampling of a non-decreasing sequence, to any size,
  is non-decreasing.
\<close>

theorem resample_endpoints_monotone:
  "hd (resampleToWavetableSize [-1, 0, 1] 5) = -1 \<and>
   last (resampleToWavetableSize [-1, 0, 1] 5) = 1 \<and>
   (sorted vals \<longrightarrow> sorted (resampleToWavetableSize vals targetSize))"
proof -
  have "resampleToWavetableSize [-1, 0, 1] 5 = [-1, -2/5, 1/5, 4/5, 1]"
    by code_simp
  then show ?thesis by (simp add: resample_sorted)
qed

theorem resample_endpoints_monotone_witness:
  "sorted [-1, 0, 1 :: number] \<and> sorted (resampleToWavetableSize [-1, 0, 1] 5)"
proof -
  have h: "sorted [-1, 0, 1 :: number]" by simp
  show ?thesis
    using h resample_endpoints_monotone [of "[-1, 0, 1]" 5] by blast
qed

text \<open>
  On finite samples \<open>resampleSamples\<close> is \<open>resampleToWavetableSize\<close>: the model of the
  code on all numbers and the model in exact arithmetic agree there.
\<close>

lemma interpolateSample_finite:
  assumes b: "\<forall>v \<in> set vals. \<bar>v\<bar> < overflowBound"
    and x0: "0 \<le> x" and xn: "nat \<lfloor>x\<rfloor> < length vals"
  shows "interpolateSample (map fin vals) x = fin (interpolateAt vals x)"
proof -
  define k where "k = nat \<lfloor>x\<rfloor>"
  define c where "c = min (k + 1) (length vals - 1)"
  define f where "f = x - of_nat k"
  have kc: "k < length vals" "c < length vals" using xn by (auto simp add: c_def k_def)
  have fl: "of_nat k = (of_int \<lfloor>x\<rfloor> :: rat)" using x0 by (simp add: k_def)
  have f0: "0 \<le> f" unfolding f_def fl by simp
  have f1: "f \<le> 1" unfolding f_def fl by linarith
  have bk: "\<bar>vals ! k\<bar> < overflowBound" using b kc(1) by simp
  have bc: "\<bar>vals ! c\<bar> < overflowBound" using b kc(2) by simp
  have "interpolateSample (map fin vals) x =
        jadd (jmul (fin (vals ! k)) (fin (1 - f))) (jmul (fin (vals ! c)) (fin f))"
    using kc by (simp add: interpolateSample_def Let_def k_def c_def f_def)
  also have "\<dots> = fin (vals ! k * (1 - f) + vals ! c * f)"
    using bk bc f0 f1 by (rule lerp_finite)
  also have "\<dots> = fin (interpolateAt vals x)"
    by (simp add: interpolateAt_def Let_def k_def c_def f_def)
  finally show ?thesis .
qed

lemma resampleSamples_finite:
  assumes b: "\<forall>v \<in> set vals. \<bar>v\<bar> < overflowBound"
  shows "resampleSamples (map fin vals) T = map fin (resampleToWavetableSize vals T)"
proof (cases "length vals = 0 \<or> length vals = T")
  case True
  then show ?thesis
    by (auto simp add: resampleSamples_def resampleToWavetableSize_def)
next
  case False
  then have n: "0 < length vals" by simp
  define r :: rat where "r = of_nat (length vals) / of_nat T"
  have r0: "0 \<le> r" by (simp add: r_def)
  have "map (\<lambda>i. interpolateSample (map fin vals) (of_nat i * r)) [0..<T] =
        map (\<lambda>i. fin (interpolateAt vals (of_nat i * r))) [0..<T]"
  proof (rule map_cong)
    fix i assume "i \<in> set [0..<T]"
    then have i: "i < T" by simp
    have x0: "(0::rat) \<le> of_nat i * r" using r0 by simp
    have xn: "nat \<lfloor>of_nat i * r\<rfloor> < length vals"
      unfolding r_def using srcIndex_in_range [OF i n] .
    show "interpolateSample (map fin vals) (of_nat i * r) = fin (interpolateAt vals (of_nat i * r))"
      using b x0 xn by (rule interpolateSample_finite)
  qed simp
  then show ?thesis using False
    by (simp add: resampleSamples_def resampleToWavetableSize_def Let_def r_def comp_def)
qed

text \<open>
  So the resampling that \<open>generateWavetable\<close> applies keeps a non-decreasing sequence
  of finite samples non-decreasing.
\<close>

lemma resampleSamples_sorted_finite:
  assumes "sorted vals" and "\<forall>v \<in> set vals. \<bar>v\<bar> < overflowBound"
  shows "\<exists>ws. resampleSamples (map fin vals) T = map fin ws \<and> sorted ws"
  using resampleSamples_finite [OF assms(2)] resample_sorted [OF assms(1)]
  by blast

section \<open>Properties of the statistics\<close>

lemma xnumber_le_Infinity: "x \<le> Infinity"
  by (cases x) (simp_all add: less_eq_xnumber_def)

lemma xnumber_NegInfinity_le: "NegInfinity \<le> x"
  by (simp add: less_eq_xnumber_def)

lemma combineStep_sel:
  "stat_min (combineStep a x) = min (stat_min a) (stat_min x)"
  "stat_max (combineStep a x) = max (stat_max a) (stat_max x)"
  "avg (combineStep a x) = avg a + avg x"
  "timeInRange (combineStep a x) = timeInRange a + timeInRange x"
  "volatility (combineStep a x) = volatility a + volatility x"
  by (simp_all add: combineStep_def)

lemma foldl_combineStep:
  "foldl combineStep acc xs =
     \<lparr>stat_min = fold min (map stat_min xs) (stat_min acc),
      stat_max = fold max (map stat_max xs) (stat_max acc),
      avg = avg acc + sum_list (map avg xs),
      timeInRange = timeInRange acc + sum_list (map timeInRange xs),
      volatility = volatility acc + sum_list (map volatility xs)\<rparr>"
proof (induction xs arbitrary: acc)
  case Nil
  show ?case by simp
next
  case (Cons x xs)
  have "foldl combineStep acc (x # xs) = foldl combineStep (combineStep acc x) xs"
    by simp
  also have "\<dots> =
     \<lparr>stat_min = fold min (map stat_min xs) (stat_min (combineStep acc x)),
      stat_max = fold max (map stat_max xs) (stat_max (combineStep acc x)),
      avg = avg (combineStep acc x) + sum_list (map avg xs),
      timeInRange = timeInRange (combineStep acc x) + sum_list (map timeInRange xs),
      volatility = volatility (combineStep acc x) + sum_list (map volatility xs)\<rparr>"
    by (rule Cons.IH)
  finally show ?case
    by (simp add: combineStep_sel min.commute max.commute add.assoc)
qed

lemma fold_min_Infinity:
  assumes "ms \<noteq> []"
  shows "fold min ms Infinity = Min (set ms)"
proof -
  obtain m ms' where ms: "ms = m # ms'" using assms by (cases ms) auto
  have "min m Infinity = m" by (simp add: min_def xnumber_le_Infinity)
  then have "fold min (m # ms') Infinity = fold min ms' m" by simp
  also have "\<dots> = Min (set (m # ms'))" by (rule Min.set_eq_fold [symmetric])
  finally show ?thesis unfolding ms .
qed

lemma fold_max_NegInfinity:
  assumes "ms \<noteq> []"
  shows "fold max ms NegInfinity = Max (set ms)"
proof -
  obtain m ms' where ms: "ms = m # ms'" using assms by (cases ms) auto
  have "max m NegInfinity = m" by (simp add: max_def xnumber_NegInfinity_le antisym)
  then have "fold max (m # ms') NegInfinity = fold max ms' m" by simp
  also have "\<dots> = Max (set (m # ms'))" by (rule Max.set_eq_fold [symmetric])
  finally show ?thesis unfolding ms .
qed

text \<open>
  Claim C6. \<open>combineGlucoseStats\<close> of no descriptor is the neutral default
  (min 70, max 180, avg 120, timeInRange 70, volatility 25); of one descriptor it is that
  descriptor; of two or more it has the least of the minima, the greatest of the maxima,
  and the arithmetic means of avg, timeInRange and volatility.
\<close>

theorem combineGlucoseStats_spec:
  "combineGlucoseStats [] =
     \<lparr>stat_min = Finite 70, stat_max = Finite 180, avg = 120, timeInRange = 70,
      volatility = 25\<rparr> \<and>
   combineGlucoseStats [s] = s \<and>
   (2 \<le> length xs \<longrightarrow>
      stat_min (combineGlucoseStats xs) = Min (set (map stat_min xs)) \<and>
      stat_max (combineGlucoseStats xs) = Max (set (map stat_max xs)) \<and>
      avg (combineGlucoseStats xs) = sum_list (map avg xs) / of_nat (length xs) \<and>
      timeInRange (combineGlucoseStats xs) =
        sum_list (map timeInRange xs) / of_nat (length xs) \<and>
      volatility (combineGlucoseStats xs) =
        sum_list (map volatility xs) / of_nat (length xs))"
proof (intro conjI impI)
  show "combineGlucoseStats [] =
     \<lparr>stat_min = Finite 70, stat_max = Finite 180, avg = 120, timeInRange = 70,
      volatility = 25\<rparr>"
    by (simp add: combineGlucoseStats_def)
  show "combineGlucoseStats [s] = s"
    by (simp add: combineGlucoseStats_def)
next
  assume len: "2 \<le> length xs"
  then have xs: "xs \<noteq> []" "length xs \<noteq> Suc 0" by auto
  then have ne: "map stat_min xs \<noteq> []" "map stat_max xs \<noteq> []" by simp_all
  have c: "combineGlucoseStats xs =
      \<lparr>stat_min = Min (set (map stat_min xs)),
       stat_max = Max (set (map stat_max xs)),
       avg = sum_list (map avg xs) / of_nat (length xs),
       timeInRange = sum_list (map timeInRange xs) / of_nat (length xs),
       volatility = sum_list (map volatility xs) / of_nat (length xs)\<rparr>"
    using xs
    by (simp add: combineGlucoseStats_def Let_def foldl_combineStep
        fold_min_Infinity [OF ne(1)] fold_max_NegInfinity [OF ne(2)])
  show "stat_min (combineGlucoseStats xs) = Min (set (map stat_min xs))"
    by (simp add: c)
  show "stat_max (combineGlucoseStats xs) = Max (set (map stat_max xs))"
    by (simp add: c)
  show "avg (combineGlucoseStats xs) = sum_list (map avg xs) / of_nat (length xs)"
    by (simp add: c)
  show "timeInRange (combineGlucoseStats xs) =
        sum_list (map timeInRange xs) / of_nat (length xs)"
    by (simp add: c)
  show "volatility (combineGlucoseStats xs) =
        sum_list (map volatility xs) / of_nat (length xs)"
    by (simp add: c)
qed

lemma finite_min: "min (Finite a) (Finite b) = Finite (min a b)"
  by (simp add: min_def less_eq_xnumber_def)

lemma finite_max: "max (Finite a) (Finite b) = Finite (max a b)"
  by (simp add: max_def less_eq_xnumber_def)

theorem combineGlucoseStats_spec_witness:
  "2 \<le> length [statsA, statsB] \<and>
   combineGlucoseStats [statsA, statsB] =
     \<lparr>stat_min = Finite 60, stat_max = Finite 240, avg = 120, timeInRange = 70,
      volatility = 20\<rparr>"
proof -
  have h: "2 \<le> length [statsA, statsB]" by simp
  have "stat_min (combineGlucoseStats [statsA, statsB]) = Finite 60 \<and>
        stat_max (combineGlucoseStats [statsA, statsB]) = Finite 240 \<and>
        avg (combineGlucoseStats [statsA, statsB]) = 120 \<and>
        timeInRange (combineGlucoseStats [statsA, statsB]) = 70 \<and>
        volatility (combineGlucoseStats [statsA, statsB]) = 20"
    using h combineGlucoseStats_spec [of statsA "[statsA, statsB]"]
    by (simp add: statsA_def statsB_def finite_min finite_max)
  then show ?thesis using h
    by (cases "combineGlucoseStats [statsA, statsB]") simp
qed

text \<open>
  Claim C7. \<open>normalizeGlucoseStat\<close>: for volatility, (value - 20) / (40 - 20) clamped
  to [0, 1]; for the average, 0 up to 100, 1 from 150, the linear map of [100, 120] onto
  [0, 1/2] between 100 and 120 and the linear map of [120, 150] onto [1/2, 1] between 120
  and 150; for time in range, value / 100 clamped to [0, 1].
\<close>

theorem normalizeGlucoseStat_spec:
  "normalizeGlucoseStat v Volatility = min 1 (max 0 ((v - 20) / (40 - 20))) \<and>
   (v \<le> 100 \<longrightarrow> normalizeGlucoseStat v Average = 0) \<and>
   (v \<ge> 150 \<longrightarrow> normalizeGlucoseStat v Average = 1) \<and>
   (100 < v \<and> v \<le> 120 \<longrightarrow>
      normalizeGlucoseStat v Average = (v - 100) / (120 - 100) * (1/2)) \<and>
   (120 < v \<and> v < 150 \<longrightarrow>
      normalizeGlucoseStat v Average = 1/2 + (v - 120) / (150 - 120) * (1/2)) \<and>
   normalizeGlucoseStat v TimeInRange = min 1 (max 0 (v / 100))"
  by (simp add: normalizeGlucoseStat_def thresholds_volatility_high_def
      thresholds_volatility_low_def thresholds_average_high_def
      thresholds_average_low_def thresholds_average_target_def)

theorem normalizeGlucoseStat_spec_witness:
  "(90::number) \<le> 100 \<and> normalizeGlucoseStat 90 Average = 0 \<and>
   (160::number) \<ge> 150 \<and> normalizeGlucoseStat 160 Average = 1 \<and>
   (100::number) < 110 \<and> (110::number) \<le> 120 \<and> normalizeGlucoseStat 110 Average = 1/4 \<and>
   (120::number) < 135 \<and> (135::number) < 150 \<and> normalizeGlucoseStat 135 Average = 3/4"
  using normalizeGlucoseStat_spec [of 90] normalizeGlucoseStat_spec [of 160]
    normalizeGlucoseStat_spec [of 110] normalizeGlucoseStat_spec [of 135]
  by simp

text \<open>
  Claim C8. In the statistics of a day, \<open>timeInRange\<close> is the percentage of readings
  whose value v satisfies 70 \<le> v \<le> 180, both bounds included: a day with the readings 70
  and 180 has 100, and a reading of 69.9 or of 180.1 is not counted.
\<close>

theorem timeInRange_inclusive:
  "(readings d \<noteq> [] \<longrightarrow>
      timeInRange (stats (calculateDayStats d)) =
        of_nat (length (filter (\<lambda>r. fin 70 \<le> value r \<and> value r \<le> fin 180) (readings d)))
          / of_nat (length (readings d)) * 100) \<and>
   timeInRange (stats (calculateDayStats (dayOf [readingAt 10 0 70, readingAt 10 5 180]))) = 100 \<and>
   timeInRange (stats (calculateDayStats (dayOf [readingAt 10 0 (699/10)]))) = 0 \<and>
   timeInRange (stats (calculateDayStats (dayOf [readingAt 10 0 (1801/10)]))) = 0 \<and>
   timeInRange (stats (calculateDayStats
      (dayOf [readingAt 10 0 70, readingAt 10 5 (699/10), readingAt 10 10 180,
              readingAt 10 15 (1801/10)]))) = 50"
proof -
  have g: "readings d \<noteq> [] \<longrightarrow>
      timeInRange (stats (calculateDayStats d)) =
        of_nat (length (filter (\<lambda>r. fin 70 \<le> value r \<and> value r \<le> fin 180) (readings d)))
          / of_nat (length (readings d)) * 100"
    by (simp add: calculateDayStats_def Let_def filter_map comp_def)
  have a: "timeInRange (stats (calculateDayStats (dayOf [readingAt 10 0 70, readingAt 10 5 180]))) = 100"
    by (simp add: calculateDayStats_def Let_def dayOf_def readingAt_def fin_le_iff)
  have b: "timeInRange (stats (calculateDayStats (dayOf [readingAt 10 0 (699/10)]))) = 0"
    by (simp add: calculateDayStats_def Let_def dayOf_def readingAt_def fin_le_iff)
  have c: "timeInRange (stats (calculateDayStats (dayOf [readingAt 10 0 (1801/10)]))) = 0"
    by (simp add: calculateDayStats_def Let_def dayOf_def readingAt_def fin_le_iff)
  have e: "timeInRange (stats (calculateDayStats
      (dayOf [readingAt 10 0 70, readingAt 10 5 (699/10), readingAt 10 10 180,
              readingAt 10 15 (1801/10)]))) = 50"
    by (simp add: calculateDayStats_def Let_def dayOf_def readingAt_def fin_le_iff)
  show ?thesis using g a b c e by blast
qed

theorem timeInRange_inclusive_witness:
  "readings (dayOf [readingAt 10 0 70, readingAt 10 5 180]) \<noteq> [] \<and>
   timeInRange (stats (calculateDayStats (dayOf [readingAt 10 0 70, readingAt 10 5 180]))) =
     of_nat (length (filter (\<lambda>r. fin 70 \<le> value r \<and> value r \<le> fin 180)
        (readings (dayOf [readingAt 10 0 70, readingAt 10 5 180]))))
      / of_nat (length (readings (dayOf [readingAt 10 0 70, readingAt 10 5 180]))) * 100"
proof -
  have h: "readings (dayOf [readingAt 10 0 70, readingAt 10 5 180]) \<noteq> []"
    by (simp add: dayOf_def)
  show ?thesis
    using h timeInRange_inclusive [of "dayOf [readingAt 10 0 70, readingAt 10 5 180]"]
    by blast
qed

section \<open>Properties of the parser\<close>

text \<open>
  The header line that \<open>parseLibreViewCSV\<close> reads exists: splitting gives at least one
  line, and the header index is the index of a line.
\<close>

lemma splitLines_not_empty: "splitLines s \<noteq> []"
  by (induction s rule: splitLines.induct) (auto split: list.splits)

lemma findHeaderIndex_in_range:
  assumes "ls \<noteq> []"
  shows "findHeaderIndex ls < length ls"
proof (cases "filter (\<lambda>i. isHeaderLine (ls ! i)) [0 ..< min 10 (length ls)]")
  case Nil
  then show ?thesis using assms by (simp add: findHeaderIndex_def)
next
  case (Cons i rest)
  then have "i \<in> set (filter (\<lambda>i. isHeaderLine (ls ! i)) [0 ..< min 10 (length ls)])"
    by simp
  then have "i < length ls" by simp
  then show ?thesis using Cons by (simp add: findHeaderIndex_def)
qed

lemma dayInv_addReading:
  assumes inv: "dayInv ds rs"
  shows "dayInv (addReading ds r) (rs @ [r])"
proof -
  define key where "key = formatDateKey (timestamp r)"
  define fresh :: DailyGlucoseData where
    "fresh = \<lparr>date = key, readings = [], wavetable = None,
              stats = \<lparr>stat_min = Num Infinity, stat_max = Num NegInfinity, avg = fin 0,
                       timeInRange = 0\<rparr>\<rparr>"
  define ds' where "ds' = (if map_of ds key = None then ds @ [(key, fresh)] else ds)"
  have add: "addReading ds r =
      AList.map_entry key (\<lambda>d. d\<lparr>readings := readings d @ [r]\<rparr>) ds'"
    by (simp add: addReading_def Let_def key_def fresh_def ds'_def)
  have dist: "distinct (map fst ds)" using inv unfolding dayInv_def by blast
  have rd: "\<And>k d. map_of ds k = Some d \<Longrightarrow>
      readings d = filter (\<lambda>r. formatDateKey (timestamp r) = k) rs"
    using inv unfolding dayInv_def by blast
  have cov: "\<And>x. x \<in> set rs \<Longrightarrow> map_of ds (formatDateKey (timestamp x)) \<noteq> None"
    using inv unfolding dayInv_def by blast
  have nokey: "filter (\<lambda>r. formatDateKey (timestamp r) = key) rs = []"
    if "map_of ds key = None"
  proof -
    have "\<forall>x \<in> set rs. formatDateKey (timestamp x) \<noteq> key"
      using cov that by blast
    then show ?thesis by (simp add: filter_empty_conv)
  qed
  have dist': "distinct (map fst ds')"
    using dist by (auto simp add: ds'_def map_of_eq_None_iff)
  have mo': "map_of ds' = (if map_of ds key = None then (map_of ds)(key \<mapsto> fresh) else map_of ds)"
    by (auto simp add: ds'_def map_add_def fun_eq_iff split: option.splits)
  have rd': "\<And>k d. map_of ds' k = Some d \<Longrightarrow>
      readings d = filter (\<lambda>r. formatDateKey (timestamp r) = k) rs"
    using rd nokey by (auto simp add: mo' fresh_def split: if_splits)
  have has: "map_of ds' key \<noteq> None"
    by (simp add: mo')
  have cov': "\<And>x. x \<in> set rs \<Longrightarrow> map_of ds' (formatDateKey (timestamp x)) \<noteq> None"
    using cov by (auto simp add: mo')
  have d1: "distinct (map fst (addReading ds r))"
    unfolding add using dist' by (rule distinct_map_entry)
  have d2: "\<And>k d. map_of (addReading ds r) k = Some d \<Longrightarrow>
      readings d = filter (\<lambda>x. formatDateKey (timestamp x) = k) (rs @ [r])"
    unfolding add map_of_map_entry using rd'
    by (auto simp add: key_def split: if_splits option.splits)
  have d3: "\<And>x. x \<in> set (rs @ [r]) \<Longrightarrow>
      map_of (addReading ds r) (formatDateKey (timestamp x)) \<noteq> None"
    unfolding add map_of_map_entry using cov' has
    by (auto simp add: key_def split: option.splits)
  show ?thesis
    unfolding dayInv_def using d1 d2 d3 by blast
qed

lemma dayInv_foldl:
  "dayInv ds pre \<Longrightarrow> dayInv (foldl addReading ds rs) (pre @ rs)"
proof (induction rs arbitrary: ds pre)
  case Nil
  then show ?case by simp
next
  case (Cons r rs)
  have "dayInv (addReading ds r) (pre @ [r])"
    using Cons.prems by (rule dayInv_addReading)
  from Cons.IH [OF this] show ?case by simp
qed

lemma readings_calculateDayStats: "readings (calculateDayStats d) = readings d"
  by (simp add: calculateDayStats_def Let_def)

lemma groupReadingsByDay_readings:
  assumes "(k, d) \<in> set (groupReadingsByDay rs)"
  shows "readings d = filter (\<lambda>r. formatDateKey (timestamp r) = k) rs"
proof -
  have "dayInv [] []" by (simp add: dayInv_def)
  from dayInv_foldl [OF this, of rs]
  have inv: "dayInv (foldl addReading [] rs) rs" by simp
  obtain d0 where d0: "(k, d0) \<in> set (foldl addReading [] rs)" "d = calculateDayStats d0"
    using assms by (auto simp add: groupReadingsByDay_def)
  have "distinct (map fst (foldl addReading [] rs))"
    using inv unfolding dayInv_def by blast
  then have "map_of (foldl addReading [] rs) k = Some d0"
    using d0(1) by simp
  then have "readings d0 = filter (\<lambda>r. formatDateKey (timestamp r) = k) rs"
    using inv unfolding dayInv_def by blast
  then show ?thesis by (simp add: d0(2) readings_calculateDayStats)
qed

lemma groupReadingsByDay_sorted:
  assumes "sorted (map (\<lambda>r. getTime (timestamp r)) rs)"
    and "(k, d) \<in> set (groupReadingsByDay rs)"
  shows "sorted (map (\<lambda>r. getTime (timestamp r)) (readings d))"
  unfolding groupReadingsByDay_readings [OF assms(2)]
  using assms(1) by (rule sorted_filter)

text \<open>
  Claim C9. The readings returned by \<open>parseGlucoseReadings\<close> are in ascending order of
  their timestamps; readings with the same timestamp keep the order of their rows; and
  the readings of every day that \<open>groupReadingsByDay\<close> builds from them are in
  non-decreasing order of their timestamps.
\<close>

theorem readings_sorted_stable:
  "sorted (map (\<lambda>r. getTime (timestamp r)) (parseGlucoseReadings nativeDate rows u)) \<and>
   (\<forall>t. filter (\<lambda>r. getTime (timestamp r) = t) (parseGlucoseReadings nativeDate rows u) =
        filter (\<lambda>r. getTime (timestamp r) = t) (collectReadings nativeDate rows u)) \<and>
   (\<forall>(k, d) \<in> set (groupReadingsByDay (parseGlucoseReadings nativeDate rows u)).
        sorted (map (\<lambda>r. getTime (timestamp r)) (readings d)))"
proof (intro conjI allI)
  show s: "sorted (map (\<lambda>r. getTime (timestamp r)) (parseGlucoseReadings nativeDate rows u))"
    by (simp add: parseGlucoseReadings_def)
  show "filter (\<lambda>r. getTime (timestamp r) = t) (parseGlucoseReadings nativeDate rows u) =
        filter (\<lambda>r. getTime (timestamp r) = t) (collectReadings nativeDate rows u)" for t
    unfolding parseGlucoseReadings_def by (rule sort_key_stable)
  show "\<forall>(k, d) \<in> set (groupReadingsByDay (parseGlucoseReadings nativeDate rows u)).
        sorted (map (\<lambda>r. getTime (timestamp r)) (readings d))"
    using groupReadingsByDay_sorted [OF s] by blast
qed

theorem readings_sorted_stable_witness:
  "groupReadingsByDay (parseGlucoseReadings (\<lambda>s. None) exampleRows MgDl) \<noteq> [] \<and>
   sorted (map (\<lambda>r. getTime (timestamp r))
     (readings (snd (hd (groupReadingsByDay
        (parseGlucoseReadings (\<lambda>s. None) exampleRows MgDl))))))"
proof -
  have ne: "groupReadingsByDay (parseGlucoseReadings (\<lambda>s. None) exampleRows MgDl) \<noteq> []"
    by code_simp
  then have "hd (groupReadingsByDay (parseGlucoseReadings (\<lambda>s. None) exampleRows MgDl))
      \<in> set (groupReadingsByDay (parseGlucoseReadings (\<lambda>s. None) exampleRows MgDl))"
    by simp
  then show ?thesis
    using ne readings_sorted_stable [of "\<lambda>s. None" exampleRows MgDl]
    by (auto simp add: case_prod_beta)
qed

lemma rep_exact:
  assumes P: "\<forall>c \<in> set ds. P c" and stop: "rest = [] \<or> \<not> P (hd rest)"
    and lo: "lo \<le> length ds" and hi: "length ds \<le> hi"
  shows "\<exists>alts. rep P lo hi (ds @ rest) = (ds, rest) # alts"
proof -
  have "takeWhile P rest = []" using stop by (cases rest) auto
  then have tw: "takeWhile P (ds @ rest) = ds" using P by (simp add: takeWhile_append2)
  have m: "min hi (length (takeWhile P (ds @ rest))) = length ds"
    using hi by (simp add: tw)
  have "[lo ..< Suc (length ds)] = [lo ..< length ds] @ [length ds]"
    using lo by simp
  then have "rev [lo ..< Suc (length ds)] = length ds # rev [lo ..< length ds]"
    by simp
  then show ?thesis by (simp add: rep_def m)
qed

lemma repThen_exact:
  assumes "\<forall>c \<in> set ds. P c" and "rest = [] \<or> \<not> P (hd rest)"
    and "lo \<le> length ds" and "length ds \<le> hi"
    and k: "k ds rest = Some r"
  shows "repThen P lo hi k (ds @ rest) = Some r"
proof -
  obtain alts where "rep P lo hi (ds @ rest) = (ds, rest) # alts"
    using rep_exact [OF assms(1-4)] by blast
  then show ?thesis by (simp add: repThen_def k)
qed

lemma charThen_Cons: "P c \<Longrightarrow> charThen P k (c # r) = k r"
  by (simp add: charThen_def)

lemma regexSearch_Some: "matchHere s = Some m \<Longrightarrow> regexSearch s = Some m"
  by (cases s) simp_all

lemma isSep_not_digit: "isSep c \<Longrightarrow> \<not> isDigit c"
  by (auto simp add: isSep_def isDigit_def)

lemma isDigit_not_space: "isDigit c \<Longrightarrow> \<not> isSpace c"
  by (auto simp add: isSpace_def isDigit_def)

lemma matchHere_form:
  assumes a: "\<forall>x \<in> set a. isDigit x" "1 \<le> length a" "length a \<le> 2"
    and b: "\<forall>x \<in> set b. isDigit x" "1 \<le> length b" "length b \<le> 2"
    and c: "\<forall>x \<in> set c. isDigit x" "length c = 4"
    and s: "isSep s1" "isSep s2"
    and h: "\<forall>x \<in> set hh. isDigit x" "1 \<le> length hh" "length hh \<le> 2"
    and m: "\<forall>x \<in> set mm. isDigit x" "length mm = 2"
    and t: "tail = [] \<or> (\<exists>ss. tail = CHR '':'' # ss \<and> length ss = 2 \<and> (\<forall>x \<in> set ss. isDigit x))"
  shows "matchHere (a @ [s1] @ b @ [s2] @ c @ '' '' @ hh @ '':'' @ mm @ tail)
         = Some (a, b, c, hh, mm)"
proof -
  have tl: "tail = [] \<or> \<not> isDigit (hd tail)"
    using t by (auto simp add: isDigit_def)
  have e5: "repThen isDigit 2 2 (\<lambda>minute (rest::string). Some (a, b, c, hh, minute))
              (mm @ tail) = Some (a, b, c, hh, mm)"
    by (rule repThen_exact) (use m tl in \<open>simp_all\<close>)
  have e4: "repThen isDigit 1 2
              (\<lambda>hour. charThen isColon (repThen isDigit 2 2
                (\<lambda>minute (rest::string). Some (a, b, c, hour, minute))))
              (hh @ CHR '':'' # mm @ tail) = Some (a, b, c, hh, mm)"
    by (rule repThen_exact) (use h e5 in \<open>simp_all add: charThen_Cons isColon_def isDigit_def\<close>)
  have hd_hh: "\<not> isSpace (hd (hh @ CHR '':'' # mm @ tail))"
    using h by (cases hh) (simp_all add: isDigit_not_space)
  have e3: "repThen isSpace 1 n
              (\<lambda>sp. repThen isDigit 1 2 (\<lambda>hour. charThen isColon (repThen isDigit 2 2
                (\<lambda>minute (rest::string). Some (a, b, c, hour, minute)))))
              ([CHR '' ''] @ (hh @ CHR '':'' # mm @ tail))
            = Some (a, b, c, hh, mm)" if "1 \<le> n" for n
    by (rule repThen_exact) (use that e4 hd_hh in \<open>simp_all add: isSpace_def\<close>)
  have e3': "repThen isSpace 1 (length (CHR '' '' # hh @ CHR '':'' # mm @ tail))
              (\<lambda>sp. repThen isDigit 1 2 (\<lambda>hour. charThen isColon (repThen isDigit 2 2
                (\<lambda>minute (rest::string). Some (a, b, c, hour, minute)))))
              (CHR '' '' # hh @ CHR '':'' # mm @ tail) = Some (a, b, c, hh, mm)"
    using e3 [of "length (CHR '' '' # hh @ CHR '':'' # mm @ tail)"] by simp
  have e2: "repThen isDigit 1 4 (\<lambda>p3 s. repThen isSpace 1 (length s) (\<lambda>sp.
              repThen isDigit 1 2 (\<lambda>hour. charThen isColon (repThen isDigit 2 2
                (\<lambda>minute (rest::string). Some (a, b, p3, hour, minute))))) s)
              (c @ CHR '' '' # hh @ CHR '':'' # mm @ tail) = Some (a, b, c, hh, mm)"
    by (rule repThen_exact) (use c e3' in \<open>simp_all add: isDigit_def\<close>)
  have e1: "repThen isDigit 1 2 (\<lambda>p2. charThen isSep (repThen isDigit 1 4 (\<lambda>p3 s.
              repThen isSpace 1 (length s) (\<lambda>sp.
              repThen isDigit 1 2 (\<lambda>hour. charThen isColon (repThen isDigit 2 2
                (\<lambda>minute (rest::string). Some (a, p2, p3, hour, minute))))) s)))
              (b @ s2 # c @ CHR '' '' # hh @ CHR '':'' # mm @ tail) = Some (a, b, c, hh, mm)"
    by (rule repThen_exact) (use b s e2 in \<open>simp_all add: charThen_Cons isSep_not_digit\<close>)
  have e0: "matchHere (a @ s1 # b @ s2 # c @ CHR '' '' # hh @ CHR '':'' # mm @ tail)
            = Some (a, b, c, hh, mm)"
    unfolding matchHere_def
    by (rule repThen_exact) (use a s e1 in \<open>simp_all add: charThen_Cons isSep_not_digit\<close>)
  then show ?thesis by simp
qed

text \<open>
  Claim C2. A timestamp of the form A sep B sep C, a space, hh:mm and optionally :ss, where
  A and B have one or two digits, C has four and the separators are among \<open>-\<close>, \<open>/\<close>
  and \<open>.\<close>, is resolved by \<open>parseTimestamp\<close> as follows: if A > 12 then the day is A and
  the month is B; else if B > 12 then the month is A and the day is B; else the day is A
  and the month is B. (The month handed to \<open>Date\<close> counts from 0, hence the \<open>- 1\<close>.)
  So 05-03-2024 08:30 is the 5th of March, 13-03-2024 08:30 is the 13th of March, and
  03-13-2024 08:30 is the 13th of March.
\<close>

theorem parseTimestamp_day_month:
  assumes a: "\<forall>x \<in> set a. isDigit x" "1 \<le> length a" "length a \<le> 2"
    and b: "\<forall>x \<in> set b. isDigit x" "1 \<le> length b" "length b \<le> 2"
    and c: "\<forall>x \<in> set c. isDigit x" "length c = 4"
    and s: "isSep s1" "isSep s2"
    and h: "\<forall>x \<in> set hh. isDigit x" "1 \<le> length hh" "length hh \<le> 2"
    and m: "\<forall>x \<in> set mm. isDigit x" "length mm = 2"
    and t: "tail = [] \<or> (\<exists>ss. tail = CHR '':'' # ss \<and> length ss = 2 \<and> (\<forall>x \<in> set ss. isDigit x))"
  shows
    "(\<exists>d. parseTimestamp nativeDate (a @ [s1] @ b @ [s2] @ c @ '' '' @ hh @ '':'' @ mm @ tail)
            = Some d \<and>
          (parseInt a > 12 \<longrightarrow> dDay d = parseInt a \<and> dMonth d = parseInt b - 1) \<and>
          (parseInt a \<le> 12 \<and> parseInt b > 12 \<longrightarrow>
             dMonth d = parseInt a - 1 \<and> dDay d = parseInt b) \<and>
          (parseInt a \<le> 12 \<and> parseInt b \<le> 12 \<longrightarrow>
             dDay d = parseInt a \<and> dMonth d = parseInt b - 1)) \<and>
     parseTimestamp nativeDate ''05-03-2024 08:30'' = Some (newDate 2024 2 5 8 30) \<and>
     parseTimestamp nativeDate ''13-03-2024 08:30'' = Some (newDate 2024 2 13 8 30) \<and>
     parseTimestamp nativeDate ''03-13-2024 08:30'' = Some (newDate 2024 2 13 8 30) \<and>
     getDate (newDate 2024 2 5 8 30) = 5 \<and> getMonth (newDate 2024 2 5 8 30) + 1 = 3 \<and>
     getDate (newDate 2024 2 13 8 30) = 13 \<and> getMonth (newDate 2024 2 13 8 30) + 1 = 3"
proof -
  let ?str = "a @ [s1] @ b @ [s2] @ c @ '' '' @ hh @ '':'' @ mm @ tail"
  have ne: "?str \<noteq> []" using a by auto
  have "matchHere ?str = Some (a, b, c, hh, mm)"
    using assms by (rule matchHere_form)
  then have "regexSearch ?str = Some (a, b, c, hh, mm)"
    by (rule regexSearch_Some)
  then have rs: "regexSearch (a @ s1 # b @ s2 # c @ CHR '' '' # hh @ CHR '':'' # mm @ tail)
      = Some (a, b, c, hh, mm)"
    by simp
  have la: "length a \<noteq> 4" using a by simp
  have g: "\<exists>d. parseTimestamp nativeDate ?str = Some d \<and>
          (parseInt a > 12 \<longrightarrow> dDay d = parseInt a \<and> dMonth d = parseInt b - 1) \<and>
          (parseInt a \<le> 12 \<and> parseInt b > 12 \<longrightarrow>
             dMonth d = parseInt a - 1 \<and> dDay d = parseInt b) \<and>
          (parseInt a \<le> 12 \<and> parseInt b \<le> 12 \<longrightarrow>
             dDay d = parseInt a \<and> dMonth d = parseInt b - 1)"
    unfolding parseTimestamp_def
    using ne la c(2) by (simp add: rs Let_def newDate_def)
  have e1: "parseTimestamp nativeDate ''05-03-2024 08:30'' = Some (newDate 2024 2 5 8 30)"
    by code_simp
  have e2: "parseTimestamp nativeDate ''13-03-2024 08:30'' = Some (newDate 2024 2 13 8 30)"
    by code_simp
  have e3: "parseTimestamp nativeDate ''03-13-2024 08:30'' = Some (newDate 2024 2 13 8 30)"
    by code_simp
  have o1: "getDate (newDate 2024 2 5 8 30) = 5 \<and> getMonth (newDate 2024 2 5 8 30) + 1 = 3"
    by code_simp
  have o2: "getDate (newDate 2024 2 13 8 30) = 13 \<and> getMonth (newDate 2024 2 13 8 30) + 1 = 3"
    by code_simp
  show ?thesis using g e1 e2 e3 o1 o2 by blast
qed

theorem parseTimestamp_day_month_witness:
  "list_all isDigit ''31'' \<and> list_all isDigit ''1'' \<and> list_all isDigit ''2024'' \<and>
   list_all isDigit ''7'' \<and> list_all isDigit ''05'' \<and> isSep CHR ''/'' \<and>
   parseTimestamp (\<lambda>s. None) ''31/1/2024 7:05:59'' = Some (newDate 2024 0 31 7 5) \<and>
   parseTimestamp (\<lambda>s. None) ''1.31.2024 7:05'' = Some (newDate 2024 0 31 7 5) \<and>
   parseTimestamp (\<lambda>s. None) ''05-03-2024 08:30'' = Some (newDate 2024 2 5 8 30)"
proof -
  have d: "\<forall>x \<in> set ''31''. isDigit x" "\<forall>x \<in> set ''1''. isDigit x"
    "\<forall>x \<in> set ''2024''. isDigit x" "\<forall>x \<in> set ''7''. isDigit x"
    "\<forall>x \<in> set ''05''. isDigit x" "\<forall>x \<in> set ''03''. isDigit x"
    "\<forall>x \<in> set ''08''. isDigit x" "\<forall>x \<in> set ''30''. isDigit x"
    "\<forall>x \<in> set ''59''. isDigit x"
    by (simp_all add: isDigit_def)
  have sp: "isSep CHR ''/''" "isSep CHR ''.''" "isSep CHR ''-''"
    by (simp_all add: isSep_def)
  have p: "parseInt ''31'' = 31" "parseInt ''1'' = 1" "parseInt ''05'' = 5"
    "parseInt ''03'' = 3" "parseInt ''2024'' = 2024" "parseInt ''7'' = 7" "parseInt ''08'' = 8"
    "parseInt ''30'' = 30"
    by (simp_all add: parseInt_def digitsValue_def isDigit_def)
  have t1: "'':59'' = [] \<or> (\<exists>ss. '':59'' = CHR '':'' # ss \<and> length ss = 2 \<and> (\<forall>x \<in> set ss. isDigit x))"
    using d(9) by simp
  have t0: "([]::string) = [] \<or> (\<exists>ss. [] = CHR '':'' # ss \<and> length ss = 2 \<and> (\<forall>x \<in> set ss. isDigit x))"
    by simp
  note w1 = parseTimestamp_day_month [where nativeDate = "\<lambda>s. None", OF d(1) _ _ d(2) _ _ d(3) _ sp(1) sp(1) d(4) _ _ d(5) _ t1]
  note w2 = parseTimestamp_day_month [where nativeDate = "\<lambda>s. None", OF d(2) _ _ d(1) _ _ d(3) _ sp(2) sp(2) d(4) _ _ d(5) _ t0]
  note w3 = parseTimestamp_day_month [where nativeDate = "\<lambda>s. None", OF d(6) _ _ d(7) _ _ d(3) _ sp(3) sp(3) d(7) _ _ d(8) _ t0]
  have r1: "parseTimestamp (\<lambda>s. None) ''31/1/2024 7:05:59'' = Some (newDate 2024 0 31 7 5)"
    by code_simp
  have r2: "parseTimestamp (\<lambda>s. None) ''1.31.2024 7:05'' = Some (newDate 2024 0 31 7 5)"
    by code_simp
  show ?thesis
    using w1 w2 w3 r1 r2 d sp by simp
qed

section \<open>The export end to end\<close>

lemma generateWavetable_single:
  assumes "readings d = [r]" and "value r = fin m"
  shows "generateWavetable d = replicate 2048 (fin 0)"
  by (rule generateWavetable_flat [where m = m])
    (simp_all add: assms mathMin_single mathMax_single)

text \<open>
  Claim C1. The export with the header line \<open>Device Timestamp,Historic Glucose mg/dL\<close>
  and the single data line \<open>01-06-2024 10:00,120\<close> is parsed into a dataset with exactly
  one day, keyed 2024-06-01, which has exactly one reading, of value 120, and the
  statistics min 120, max 120, avg 120, timeInRange 100; the wavetable generated for
  that day has 2048 samples, all of them 0.
\<close>

theorem end_to_end_single_reading:
  "days (parseLibreViewCSV nativeDate csvOneReading) = [(''2024-06-01'', dayOneReading)] \<and>
   length (readings dayOneReading) = 1 \<and>
   map value (readings dayOneReading) = [fin 120] \<and>
   stats dayOneReading =
     \<lparr>stat_min = fin 120, stat_max = fin 120, avg = fin 120, timeInRange = 100\<rparr> \<and>
   length (generateWavetable dayOneReading) = 2048 \<and>
   generateWavetable dayOneReading = replicate 2048 (fin 0)"
proof -
  have p: "days (parseLibreViewCSV nativeDate csvOneReading) = [(''2024-06-01'', dayOneReading)]"
    by code_simp
  have r: "readings dayOneReading =
      [\<lparr>timestamp = newDate 2024 5 1 10 0, value = fin 120, recordType = 0\<rparr>]"
    by (simp add: dayOneReading_def)
  have w: "generateWavetable dayOneReading = replicate 2048 (fin 0)"
    using r by (rule generateWavetable_single) simp
  have s: "stats dayOneReading =
     \<lparr>stat_min = fin 120, stat_max = fin 120, avg = fin 120, timeInRange = 100\<rparr>"
    by (simp add: dayOneReading_def)
  show ?thesis using p w s by (simp add: r)
qed

text \<open>
  A day without readings, and a day whose readings all have one finite value (its
  maximum equals its minimum, as on a day with a single reading), get the all-zero
  wavetable.
\<close>

lemma flat_day_finite_silent:
  "(readings dayData = [] \<longrightarrow> generateWavetable dayData = replicate 2048 (fin 0)) \<and>
   (readings dayData \<noteq> [] \<and>
      mathMax (map value (readings dayData)) = fin m \<and>
      mathMin (map value (readings dayData)) = fin m
      \<longrightarrow> generateWavetable dayData = replicate 2048 (fin 0))"
  using generateWavetable_empty [of dayData] generateWavetable_flat [of dayData m]
  by blast

text \<open>
  Claim C5 says that every day whose readings are all equal (max == min) gets the
  all-zero wavetable, with no NaN sample. The export whose single reading is the text
  \<open>Infinity\<close> is parsed into a day with one reading, of value \<open>Infinity\<close>: \<open>parseFloat\<close>
  reads the number and \<open>isNaN\<close> lets it through. The maximum of that day equals its
  minimum, but their difference is NaN, the guard \<open>range === 0\<close> does not hold, and all
  2048 samples of the wavetable are NaN, not 0.
\<close>

theorem flat_day_infinity_nan:
  "days (parseLibreViewCSV nativeDate csvInfinity) = [(''2024-06-01'', dayInfinity)] \<and>
   map value (readings dayInfinity) = [Num Infinity] \<and>
   mathMax (map value (readings dayInfinity)) = mathMin (map value (readings dayInfinity)) \<and>
   generateWavetable dayInfinity = replicate 2048 NaN"
proof -
  have p: "days (parseLibreViewCSV nativeDate csvInfinity) = [(''2024-06-01'', dayInfinity)]"
    by code_simp
  have r: "map value (readings dayInfinity) = [Num Infinity]"
    by (simp add: dayInfinity_def)
  have m: "mathMax (map value (readings dayInfinity)) = mathMin (map value (readings dayInfinity))"
    by (simp add: r mathMin_single mathMax_single)
  have n: "normalizeGlucoseValues (map value (readings dayInfinity)) = [NaN]"
    by (simp add: r normalize_Infinity)
  have "resampleSamples (replicate 1 NaN) 2048 = replicate 2048 NaN"
    by (rule resampleSamples_NaN) simp
  then have s: "resampleSamples [NaN] 2048 = replicate 2048 NaN"
    by simp
  have "generateWavetable dayInfinity = smoothWavetable (resampleSamples [NaN] 2048) 2"
    unfolding generateWavetable_def Let_def n WAVETABLE_SIZE_def
    by (simp add: dayInfinity_def)
  also have "\<dots> = replicate 2048 NaN"
    unfolding s by (rule smoothWavetable_NaN)
  finally show ?thesis using p r m by simp
qed

lemma findHeaderIndex_none:
  assumes "filter isHeaderLine (take 10 ls) = []"
  shows "findHeaderIndex ls = 0"
proof -
  have "\<not> isHeaderLine (ls ! i)" if "i < min 10 (length ls)" for i
  proof -
    have "ls ! i \<in> set (take 10 ls)"
      using that by (auto simp add: in_set_conv_nth)
    then show ?thesis using assms by (auto simp add: filter_empty_conv)
  qed
  then have "filter (\<lambda>i. isHeaderLine (ls ! i)) [0 ..< min 10 (length ls)] = []"
    by (auto simp add: filter_empty_conv)
  then show ?thesis by (simp add: findHeaderIndex_def)
qed

text \<open>
  Claim C3 says that an export none of whose first 10 lines contains both "device" and
  "timestamp" is reported as a failure. The code has no failure to report: the header
  index keeps its initial value 0. An export whose first line is
  \<open>Timestamp,Historic Glucose mg/dL\<close> has no such line, and it is parsed into a day with
  one reading all the same.
\<close>

theorem no_header_counterexample:
  "filter isHeaderLine (take 10 (splitLines (trim csvNoHeader))) = [] \<and>
   days (parseLibreViewCSV (\<lambda>s. None) csvNoHeader) = [(''2024-06-01'', dayOneReading)]"
  by code_simp

text \<open>
  Claim C3, as the code has it. If none of the first 10 lines contains both "device" and
  "timestamp", the header index is 0. There is a first line, and it is parsed as the
  header line; every later line that has as many fields as the header line becomes a row
  keyed by the header's fields; and the dataset returned is the one built from these
  rows: their readings grouped by day, the unit detected in the header line, and the
  device name and serial number of the first row.
\<close>

theorem no_header_first_line:
  assumes "filter isHeaderLine (take 10 (splitLines (trim csvContent))) = []"
  shows
    "splitLines (trim csvContent) \<noteq> [] \<and>
     findHeaderIndex (splitLines (trim csvContent)) = 0 \<and>
     parseLibreViewCSV nativeDate csvContent =
       (let headers = parseCSVLine (hd (splitLines (trim csvContent)));
            rows = map (rowOf headers)
                     (filter (\<lambda>vals. length vals = length headers)
                        (map parseCSVLine (tl (splitLines (trim csvContent)))))
        in \<lparr>days = groupReadingsByDay
                    (parseGlucoseReadings nativeDate rows (detectUnit headers)),
            unit = detectUnit headers,
            deviceName = firstRowField rows ''Device'' ''Unknown Device'',
            serialNumber = firstRowField rows ''Serial Number'' ''''\<rparr>)"
proof -
  let ?ls = "splitLines (trim csvContent)"
  have ne: "?ls \<noteq> []" by (rule splitLines_not_empty)
  have ix: "findHeaderIndex ?ls = 0" using assms by (rule findHeaderIndex_none)
  have h: "?ls ! 0 = hd ?ls" using ne by (simp add: hd_conv_nth)
  have t: "drop (0 + 1) ?ls = tl ?ls" by (simp add: drop_Suc)
  have "parseLibreViewCSV nativeDate csvContent = parseFromHeader nativeDate ?ls 0"
    by (simp add: parseLibreViewCSV_def Let_def ix)
  also have "\<dots> =
       (let headers = parseCSVLine (hd ?ls);
            rows = map (rowOf headers)
                     (filter (\<lambda>vals. length vals = length headers)
                        (map parseCSVLine (tl ?ls)))
        in \<lparr>days = groupReadingsByDay
                    (parseGlucoseReadings nativeDate rows (detectUnit headers)),
            unit = detectUnit headers,
            deviceName = firstRowField rows ''Device'' ''Unknown Device'',
            serialNumber = firstRowField rows ''Serial Number'' ''''\<rparr>)"
    unfolding parseFromHeader_def h t by (simp add: Let_def)
  finally show ?thesis using ne ix by blast
qed

theorem no_header_first_line_witness:
  "filter isHeaderLine (take 10 (splitLines (trim csvNoHeader))) = [] \<and>
   (splitLines (trim csvNoHeader) \<noteq> [] \<and>
    findHeaderIndex (splitLines (trim csvNoHeader)) = 0 \<and>
    parseLibreViewCSV (\<lambda>s. None) csvNoHeader =
      (let headers = parseCSVLine (hd (splitLines (trim csvNoHeader)));
           rows = map (rowOf headers)
                    (filter (\<lambda>vals. length vals = length headers)
                       (map parseCSVLine (tl (splitLines (trim csvNoHeader)))))
       in \<lparr>days = groupReadingsByDay
                   (parseGlucoseReadings (\<lambda>s. None) rows (detectUnit headers)),
           unit = detectUnit headers,
           deviceName = firstRowField rows ''Device'' ''Unknown Device'',
           serialNumber = firstRowField rows ''Serial Number'' ''''\<rparr>))"
proof -
  have h: "filter isHeaderLine (take 10 (splitLines (trim csvNoHeader))) = []"
    by code_simp
  show ?thesis
    using h no_header_first_line [OF h, of "\<lambda>s. None"] by (rule conjI)
qed

end
